theory Spec2Isabelle
  imports Main
begin

section \<open>JavaScript values\<close>

text \<open>
  The client of \<^verbatim>\<open>scripts/cdp.js\<close> works on whatever \<^verbatim>\<open>JSON.parse\<close> returns.
  A parsed value is a \<open>json\<close>; an absent property (\<^verbatim>\<open>undefined\<close>) is \<open>None\<close> of
  \<open>json option\<close>. An object is the list of its members, and a name is looked up
  from the front. Numbers are the integral ones (the identifiers of the wire format);
  a JavaScript number is exact on them up to \<open>2^53\<close>, and the counter of the client
  is read in that range.
\<close>

datatype json =
    JNull
  | JBool bool
  | JNum int
  | JStr string
  | JArr "json list"
  | JObj "(string \<times> json) list"

type_synonym jsval = "json option"

text \<open>
  An exception is either an \<^verbatim>\<open>Error\<close> that the client constructs itself
  (\<^verbatim>\<open>new Error(message)\<close>, whose name is \<^verbatim>\<open>"Error"\<close>) or one that the host raises
  (\<^verbatim>\<open>SyntaxError\<close> of \<^verbatim>\<open>JSON.parse\<close>, \<^verbatim>\<open>TypeError\<close> of a property read on
  \<^verbatim>\<open>null\<close>, \<^verbatim>\<open>AbortError\<close> of an aborted fetch), given by its name and message.
\<close>

datatype error = Error string | HostError string string

fun name :: "error \<Rightarrow> string" where
  "name (Error m) = ''Error''"
| "name (HostError n m) = n"

fun message :: "error \<Rightarrow> string" where
  "message (Error m) = m"
| "message (HostError n m) = m"

text \<open>Truthiness, as \<^verbatim>\<open>if (v)\<close>, \<^verbatim>\<open>a && b\<close> and \<^verbatim>\<open>a || b\<close> test it.\<close>

fun truthy :: "jsval \<Rightarrow> bool" where
  "truthy None = False"
| "truthy (Some JNull) = False"
| "truthy (Some (JBool b)) = b"
| "truthy (Some (JNum n)) = (n \<noteq> 0)"
| "truthy (Some (JStr s)) = (s \<noteq> [])"
| "truthy (Some (JArr xs)) = True"
| "truthy (Some (JObj fs)) = True"

text \<open>
  \<^verbatim>\<open>v.p\<close> on a value that is neither \<^verbatim>\<open>null\<close> nor \<^verbatim>\<open>undefined\<close>, for the
  property names this client reads (none of them is a property of a string, an array or
  a prototype): the member of an object, \<^verbatim>\<open>undefined\<close> on anything else.
\<close>

fun get_prop :: "json \<Rightarrow> string \<Rightarrow> jsval" where
  "get_prop (JObj fs) p = map_of fs p"
| "get_prop v p = None"

text \<open>\<^verbatim>\<open>v?.p\<close>: \<^verbatim>\<open>undefined\<close> when \<open>v\<close> is \<^verbatim>\<open>null\<close> or \<^verbatim>\<open>undefined\<close>.\<close>

fun opt_get :: "jsval \<Rightarrow> string \<Rightarrow> jsval" where
  "opt_get None p = None"
| "opt_get (Some JNull) p = None"
| "opt_get (Some v) p = get_prop v p"

text \<open>\<^verbatim>\<open>a || b\<close>\<close>

definition js_or :: "jsval \<Rightarrow> jsval \<Rightarrow> jsval" where
  "js_or a b = (if truthy a then a else b)"

text \<open>Decimal digits of a number, as \<^verbatim>\<open>String(n)\<close> prints an integer below \<open>10^21\<close>.\<close>

fun show_nat :: "nat \<Rightarrow> string" where
  "show_nat n =
     (if n < 10 then [char_of (48 + n)]
      else show_nat (n div 10) @ [char_of (48 + n mod 10)])"

definition show_int :: "int \<Rightarrow> string" where
  "show_int i = (if i < 0 then CHR ''-'' # show_nat (nat (- i)) else show_nat (nat i))"

text \<open>
  \<^verbatim>\<open>String(v)\<close>, the conversion that \<^verbatim>\<open>new Error(v)\<close> applies to its argument: a string
  is itself, an array joins its elements with commas (\<^verbatim>\<open>null\<close> elements are empty), an
  object is \<^verbatim>\<open>[object Object]\<close>.
\<close>

fun ToString :: "json \<Rightarrow> string" and join_elems :: "json list \<Rightarrow> string" where
  "ToString JNull = ''null''"
| "ToString (JBool b) = (if b then ''true'' else ''false'')"
| "ToString (JNum n) = show_int n"
| "ToString (JStr s) = s"
| "ToString (JArr xs) = join_elems xs"
| "ToString (JObj fs) = ''[object Object]''"
| "join_elems [] = []"
| "join_elems [x] = (if x = JNull then [] else ToString x)"
| "join_elems (x # y # ys) =
     (if x = JNull then [] else ToString x) @ '','' @ join_elems (y # ys)"

text \<open>\<^verbatim>\<open>new Error(v)\<close>: the message is \<^verbatim>\<open>String(v)\<close>, and empty when \<open>v\<close> is \<^verbatim>\<open>undefined\<close>.\<close>

fun Error_new :: "jsval \<Rightarrow> error" where
  "Error_new None = Error []"
| "Error_new (Some v) = Error (ToString v)"

section \<open>The client\<close>

text \<open>
  The transport is the host's WebSocket. \<open>ws_send_throws\<close> is what its \<^verbatim>\<open>send\<close>
  raises on a socket that is no longer open: nothing for the WHATWG WebSocket
  (\<^verbatim>\<open>globalThis.WebSocket\<close>, which discards the data), an exception for the
  \<^verbatim>\<open>ws\<close> package. \<open>ws_sent\<close> holds the messages handed to the socket while open, as
  the objects that \<^verbatim>\<open>JSON.stringify\<close> serialises.
\<close>

record websocket =
  ws_url :: jsval
  ws_closed :: bool
  ws_sent :: "json list"
  ws_send_throws :: "(string \<times> string) option"

definition ws_open :: "jsval \<Rightarrow> (string \<times> string) option \<Rightarrow> websocket" where
  "ws_open url thr = \<lparr>ws_url = url, ws_closed = False, ws_sent = [], ws_send_throws = thr\<rparr>"

definition ws_send :: "websocket \<Rightarrow> json \<Rightarrow> error + websocket" where
  "ws_send w m =
     (if ws_closed w then
        (case ws_send_throws w of
           None \<Rightarrow> Inr w
         | Some (n, t) \<Rightarrow> Inl (HostError n t))
      else Inr (w\<lparr>ws_sent := ws_sent w @ [m]\<rparr>))"

definition ws_close :: "websocket \<Rightarrow> websocket" where
  "ws_close w = w\<lparr>ws_closed := True\<rparr>"

text \<open>
  One invocation of \<^verbatim>\<open>send\<close> creates a promise and a timer; the closures
  \<^verbatim>\<open>resolve\<close> and \<^verbatim>\<open>reject\<close> stored in \<^verbatim>\<open>callbacks\<close> and the timer's callback all
  refer to them. A \<open>send_call\<close> is that closure state: the promise is pending while
  \<open>settled\<close> is \<open>None\<close>, and the timer can fire while \<open>timer_armed\<close>.
\<close>

datatype outcome = Resolved jsval | Rejected error

record send_call =
  call_msgId :: int
  call_method :: string
  call_timeout :: nat
  settled :: "outcome option"
  timer_armed :: bool

text \<open>
  The fields of \<^verbatim>\<open>class CDP\<close> (\<open>id_ctr\<close> is \<^verbatim>\<open>this.id\<close>; \<^verbatim>\<open>this.sessions\<close> is
  never read or written), and \<open>calls\<close>, the promises and timers created by its
  \<^verbatim>\<open>send\<close>, in creation order. An entry of \<open>callbacks\<close> is the index of the call
  whose closures it holds. A handler is a function object, identified by its reference;
  the set of \<^verbatim>\<open>eventHandlers\<close> keeps insertion order, as a JavaScript \<^verbatim>\<open>Set\<close> does.
\<close>

record cdp =
  ws :: websocket
  id_ctr :: int
  callbacks :: "int \<rightharpoonup> nat"
  eventHandlers :: "string \<rightharpoonup> nat list"
  calls :: "send_call list"

definition CDP_new :: "websocket \<Rightarrow> cdp" where
  "CDP_new w = \<lparr>ws = w, id_ctr = 0, callbacks = Map.empty, eventHandlers = Map.empty, calls = []\<rparr>"

text \<open>Settling a promise: only a pending promise changes.\<close>

definition settle :: "nat \<Rightarrow> outcome \<Rightarrow> cdp \<Rightarrow> cdp" where
  "settle k out s =
     (if k < length (calls s) \<and> settled (calls s ! k) = None
      then s\<lparr>calls := (calls s)[k := (calls s ! k)\<lparr>settled := Some out\<rparr>]\<rparr>
      else s)"

definition clearTimeout :: "nat \<Rightarrow> cdp \<Rightarrow> cdp" where
  "clearTimeout k s =
     (if k < length (calls s)
      then s\<lparr>calls := (calls s)[k := (calls s ! k)\<lparr>timer_armed := False\<rparr>]\<rparr>
      else s)"

text \<open>The two closures that \<^verbatim>\<open>send\<close> stores in \<^verbatim>\<open>callbacks\<close>.\<close>

definition cb_resolve :: "nat \<Rightarrow> jsval \<Rightarrow> cdp \<Rightarrow> cdp" where
  "cb_resolve k result s = settle k (Resolved result) (clearTimeout k s)"

definition cb_reject :: "nat \<Rightarrow> error \<Rightarrow> cdp \<Rightarrow> cdp" where
  "cb_reject k err s = settle k (Rejected err) (clearTimeout k s)"

text \<open>The object \<^verbatim>\<open>msg\<close> that \<^verbatim>\<open>send\<close> builds.\<close>

definition out_msg :: "int \<Rightarrow> string \<Rightarrow> json \<Rightarrow> json \<Rightarrow> json" where
  "out_msg msgId method params sessionId =
     JObj ([(''id'', JNum msgId), (''method'', JStr method), (''params'', params)]
           @ (if truthy (Some sessionId) then [(''sessionId'', sessionId)] else []))"

text \<open>
  \<^verbatim>\<open>send(method, params, sessionId, timeout)\<close>: returns the index of the new promise.
  An exception of \<^verbatim>\<open>this.ws.send\<close> is raised inside the promise's executor, so it
  rejects the promise; the entry of \<^verbatim>\<open>callbacks\<close> and the timer are already in place.
\<close>

definition send :: "cdp \<Rightarrow> string \<Rightarrow> json \<Rightarrow> json \<Rightarrow> nat \<Rightarrow> nat \<times> cdp" where
  "send s method params sessionId timeout =
     (let msgId = id_ctr s + 1;
          msg = out_msg msgId method params sessionId;
          k = length (calls s);
          s1 = s\<lparr>id_ctr := msgId,
                 calls := calls s @ [\<lparr>call_msgId = msgId, call_method = method,
                                      call_timeout = timeout, settled = None,
                                      timer_armed = True\<rparr>],
                 callbacks := (callbacks s)(msgId \<mapsto> k)\<rparr>
      in case ws_send (ws s1) msg of
           Inr w \<Rightarrow> (k, s1\<lparr>ws := w\<rparr>)
         | Inl e \<Rightarrow> (k, settle k (Rejected e) s1))"

text \<open>
  The callback of the timer armed by \<^verbatim>\<open>send\<close>, run by the host when the timeout
  expires; a timer that was cleared, or has fired, does not run.
\<close>

definition timer_fires :: "nat \<Rightarrow> cdp \<Rightarrow> cdp" where
  "timer_fires k s =
     (if k < length (calls s) \<and> timer_armed (calls s ! k) then
        (let c = calls s ! k;
             s1 = s\<lparr>calls := (calls s)[k := c\<lparr>timer_armed := False\<rparr>]\<rparr>;
             s2 = s1\<lparr>callbacks := (callbacks s1)(call_msgId c := None)\<rparr>
         in settle k (Rejected (Error (''CDP timeout: '' @ call_method c))) s2)
      else s)"

definition close :: "cdp \<Rightarrow> cdp" where
  "close s = s\<lparr>ws := ws_close (ws s)\<rparr>"

text \<open>\<^verbatim>\<open>on\<close> and \<^verbatim>\<open>off\<close>; the function that \<^verbatim>\<open>on\<close> returns is \<open>off\<close> at the same arguments.\<close>

definition on :: "cdp \<Rightarrow> string \<Rightarrow> nat \<Rightarrow> cdp" where
  "on s method handler =
     (let hs = (case eventHandlers s method of None \<Rightarrow> [] | Some hs \<Rightarrow> hs)
      in s\<lparr>eventHandlers :=
             (eventHandlers s)(method \<mapsto> (if handler \<in> set hs then hs else hs @ [handler]))\<rparr>)"

definition off :: "cdp \<Rightarrow> string \<Rightarrow> nat \<Rightarrow> cdp" where
  "off s method handler =
     (case eventHandlers s method of
        None \<Rightarrow> s
      | Some hs \<Rightarrow>
          (let hs' = removeAll handler hs
           in if hs' = [] then s\<lparr>eventHandlers := (eventHandlers s)(method := None)\<rparr>
              else s\<lparr>eventHandlers := (eventHandlers s)(method \<mapsto> hs')\<rparr>))"

text \<open>
  A handler runs on the caller's own state \<open>'w\<close> and either returns or throws;
  \<open>code h\<close> is the body of the function object \<open>h\<close>. Handlers that call back into the
  client while an event is being delivered to them are not covered.

  The loop of \<^verbatim>\<open>emit\<close>: each handler is called inside \<^verbatim>\<open>try\<close>, and \<^verbatim>\<open>catch\<close> does
  nothing. The first component of the result lists the handlers that were called.
\<close>

type_synonym 'w handlers = "nat \<Rightarrow> json \<Rightarrow> json \<Rightarrow> 'w \<Rightarrow> error option \<times> 'w"

fun emit_loop :: "'w handlers \<Rightarrow> nat list \<Rightarrow> json \<Rightarrow> json \<Rightarrow> 'w \<Rightarrow> nat list \<times> 'w" where
  "emit_loop code [] params sessionId w = ([], w)"
| "emit_loop code (h # hs) params sessionId w =
     (case code h params sessionId w of
        (None, w') \<Rightarrow>
          (case emit_loop code hs params sessionId w' of (called, w'') \<Rightarrow> (h # called, w''))
      | (Some e, w') \<Rightarrow>
          (case emit_loop code hs params sessionId w' of (called, w'') \<Rightarrow> (h # called, w'')))"

text \<open>
  \<^verbatim>\<open>emit(method, params, sessionId)\<close>. The keys of \<^verbatim>\<open>eventHandlers\<close> are the strings
  given to \<^verbatim>\<open>on\<close>, so a method that is not a string finds no handlers.
\<close>

definition emit :: "'w handlers \<Rightarrow> cdp \<Rightarrow> json \<Rightarrow> json \<Rightarrow> json \<Rightarrow> 'w \<Rightarrow> nat list \<times> 'w" where
  "emit code s method params sessionId w =
     (case (case method of JStr m \<Rightarrow> eventHandlers s m | _ \<Rightarrow> None) of
        None \<Rightarrow> ([], w)
      | Some hs \<Rightarrow> if length hs = 0 then ([], w) else emit_loop code hs params sessionId w)"

text \<open>\<^verbatim>\<open>this.callbacks.has(v)\<close> and \<^verbatim>\<open>this.callbacks.get(v)\<close>: the keys are numbers.\<close>

fun callbacks_get :: "cdp \<Rightarrow> jsval \<Rightarrow> nat option" where
  "callbacks_get s (Some (JNum n)) = callbacks s n"
| "callbacks_get s v = None"

fun callbacks_delete :: "cdp \<Rightarrow> jsval \<Rightarrow> cdp" where
  "callbacks_delete s (Some (JNum n)) = s\<lparr>callbacks := (callbacks s)(n := None)\<rparr>"
| "callbacks_delete s v = s"

text \<open>
  The listener that the constructor registers for \<^verbatim>\<open>"message"\<close>, on the text of the
  frame (what \<^verbatim>\<open>toTextPayload\<close> returns). \<open>JSON_parse\<close> is the host's parser: \<open>Inl\<close> is
  the message of the \<^verbatim>\<open>SyntaxError\<close> it throws. The listener has no \<^verbatim>\<open>try\<close>: \<open>Inl\<close>
  is an exception that leaves it.
\<close>

definition TypeError_read :: "string \<Rightarrow> string \<Rightarrow> error" where
  "TypeError_read v p =
     HostError ''TypeError'' (''Cannot read properties of '' @ v @ '' (reading '' @ p @ '')'')"

text \<open>\<^verbatim>\<open>a || d\<close> where \<open>d\<close> is a value: \<^verbatim>\<open>msg.params || {}\<close>, \<^verbatim>\<open>msg.sessionId || null\<close>.\<close>

fun or_else :: "jsval \<Rightarrow> json \<Rightarrow> json" where
  "or_else None d = d"
| "or_else (Some v) d = (if truthy (Some v) then v else d)"

definition message_listener ::
  "(string \<Rightarrow> string + json) \<Rightarrow> 'w handlers \<Rightarrow> cdp \<Rightarrow> string \<Rightarrow> 'w
     \<Rightarrow> error + (cdp \<times> nat list \<times> 'w)" where
  "message_listener JSON_parse code s raw w =
     (case JSON_parse raw of
        Inl syntax \<Rightarrow> Inl (HostError ''SyntaxError'' syntax)
      | Inr JNull \<Rightarrow> Inl (TypeError_read ''null'' ''id'')
      | Inr msg \<Rightarrow>
          (case (if truthy (get_prop msg ''id'') then callbacks_get s (get_prop msg ''id'')
                 else None) of
             Some k \<Rightarrow>
               (let s1 = callbacks_delete s (get_prop msg ''id'')
                in if truthy (get_prop msg ''error'')
                   then Inr (cb_reject k
                               (Error_new (opt_get (get_prop msg ''error'') ''message'')) s1,
                             [], w)
                   else Inr (cb_resolve k (get_prop msg ''result'') s1, [], w))
           | None \<Rightarrow>
               (case get_prop msg ''method'' of
                  None \<Rightarrow> Inr (s, [], w)
                | Some method \<Rightarrow>
                    if truthy (Some method)
                    then (case emit code s method
                                 (or_else (get_prop msg ''params'') (JObj []))
                                 (or_else (get_prop msg ''sessionId'') JNull) w of
                            (called, w') \<Rightarrow> Inr (s, called, w'))
                    else Inr (s, [], w))))"

text \<open>
  \<^verbatim>\<open>evaluate(sessionId, expression, timeout)\<close> up to its \<^verbatim>\<open>await\<close>, and what it does
  with the outcome of the promise it awaited: \<open>Inl\<close> is the exception it throws, \<open>Inr\<close>
  the value it returns.
\<close>

definition evaluate :: "cdp \<Rightarrow> json \<Rightarrow> json \<Rightarrow> nat \<Rightarrow> nat \<times> cdp" where
  "evaluate s sessionId expression timeout =
     send s ''Runtime.evaluate''
       (JObj [(''expression'', expression), (''returnByValue'', JBool True),
              (''awaitPromise'', JBool True)])
       sessionId timeout"

fun evaluate_result :: "outcome \<Rightarrow> error + jsval" where
  "evaluate_result (Rejected e) = Inl e"
| "evaluate_result (Resolved None) = Inl (TypeError_read ''undefined'' ''exceptionDetails'')"
| "evaluate_result (Resolved (Some JNull)) = Inl (TypeError_read ''null'' ''exceptionDetails'')"
| "evaluate_result (Resolved (Some result)) =
     (case get_prop result ''exceptionDetails'' of
        None \<Rightarrow> Inr (opt_get (get_prop result ''result'') ''value'')
      | Some details \<Rightarrow>
          if truthy (Some details)
          then Inl (Error_new (js_or (opt_get (get_prop details ''exception'') ''description'')
                                     (get_prop details ''text'')))
          else Inr (opt_get (get_prop result ''result'') ''value''))"

text \<open>
  What happens to a client, in the order it happens: calls of its methods, frames that
  the host delivers to the listener, and timers that expire. When an exception leaves
  the listener, the listener has changed nothing before it throws. Whether the host
  delivers any frame after that is the host's business (Node ends the process on an
  uncaught exception unless the program handles it); the runs below include those in
  which it does, so that what holds of the state after every run holds on either kind
  of host.
\<close>

datatype event =
    Send string json json nat
  | Message string
  | Timer nat
  | Close
  | On string nat
  | Off string nat

fun step ::
  "(string \<Rightarrow> string + json) \<Rightarrow> 'w handlers \<Rightarrow> cdp \<times> 'w \<Rightarrow> event \<Rightarrow> cdp \<times> 'w" where
  "step JSON_parse code (s, w) (Send method params sessionId timeout) =
     (snd (send s method params sessionId timeout), w)"
| "step JSON_parse code (s, w) (Message raw) =
     (case message_listener JSON_parse code s raw w of
        Inl e \<Rightarrow> (s, w)
      | Inr (s', called, w') \<Rightarrow> (s', w'))"
| "step JSON_parse code (s, w) (Timer k) = (timer_fires k s, w)"
| "step JSON_parse code (s, w) Close = (close s, w)"
| "step JSON_parse code (s, w) (On method handler) = (on s method handler, w)"
| "step JSON_parse code (s, w) (Off method handler) = (off s method handler, w)"

definition run ::
  "(string \<Rightarrow> string + json) \<Rightarrow> 'w handlers \<Rightarrow> cdp \<times> 'w \<Rightarrow> event list \<Rightarrow> cdp \<times> 'w" where
  "run JSON_parse code = foldl (step JSON_parse code)"

section \<open>Connecting\<close>

text \<open>Strings: \<^verbatim>\<open>startsWith\<close>, \<^verbatim>\<open>trim\<close>, and the white space of \<^verbatim>\<open>\s\<close> (its ASCII part).\<close>

definition startsWith :: "string \<Rightarrow> string \<Rightarrow> bool" where
  "startsWith s p = (take (length p) s = p)"

definition is_space :: "char \<Rightarrow> bool" where
  "is_space c = (c \<in> set [CHR 0x09, CHR 0x0A, CHR 0x0B, CHR 0x0C, CHR 0x0D, CHR 0x20])"

definition trim :: "string \<Rightarrow> string" where
  "trim s = rev (dropWhile is_space (rev (dropWhile is_space s)))"

text \<open>
  The flag \<^verbatim>\<open>i\<close> of a regular expression compares letters by their upper case.
  \<open>ci_starts s p\<close>: the text \<open>s\<close> starts with the pattern \<open>p\<close>, up to case.
\<close>

definition upper :: "char \<Rightarrow> char" where
  "upper c =
     (case map_of (zip ''abcdefghijklmnopqrstuvwxyz'' ''ABCDEFGHIJKLMNOPQRSTUVWXYZ'') c of
        None \<Rightarrow> c
      | Some u \<Rightarrow> u)"

fun ci_starts :: "string \<Rightarrow> string \<Rightarrow> bool" where
  "ci_starts s [] = True"
| "ci_starts [] (p # ps) = False"
| "ci_starts (c # cs) (p # ps) = (upper c = upper p \<and> ci_starts cs ps)"

text \<open>
  \<^verbatim>\<open>text.replace(re, "$1" + rep)\<close> for a global \<open>re\<close> with one group at its start.
  \<open>m s\<close> matches \<open>re\<close> at the start of \<open>s\<close>: \<open>Some (g, n)\<close> when the match is the first
  \<open>n\<close> characters and its group the first \<open>g\<close>. The scan goes on behind each match.
\<close>

function replace_all :: "(string \<Rightarrow> (nat \<times> nat) option) \<Rightarrow> string \<Rightarrow> string \<Rightarrow> string" where
  "replace_all m rep [] = []"
| "replace_all m rep (c # cs) =
     (case m (c # cs) of
        None \<Rightarrow> c # replace_all m rep cs
      | Some (g, n) \<Rightarrow>
          if 0 < n then take g (c # cs) @ rep @ replace_all m rep (drop n (c # cs))
          else c # replace_all m rep cs)"
  by pat_completeness auto
termination
  by (relation "measure (\<lambda>(m, rep, s). length s)") auto

text \<open>\<^verbatim>\<open>[^&\s]\<close>\<close>

definition value_char :: "char \<Rightarrow> bool" where
  "value_char c = (c \<noteq> CHR ''&'' \<and> \<not> is_space c)"

text \<open>\<^verbatim>\<open>/(token=)[^&\s]+/gi\<close>\<close>

definition re_token :: "string \<Rightarrow> (nat \<times> nat) option" where
  "re_token s =
     (if ci_starts s ''token='' then
        (let v = takeWhile value_char (drop 6 s)
         in if v \<noteq> [] then Some (6, 6 + length v) else None)
      else None)"

text \<open>\<^verbatim>\<open>/(access[_-]?token=)[^&\s]+/gi\<close>\<close>

definition re_access_token :: "string \<Rightarrow> (nat \<times> nat) option" where
  "re_access_token s =
     (if ci_starts s ''access'' then
        (let r = drop 6 s;
             g = (if r \<noteq> [] \<and> (hd r = CHR ''_'' \<or> hd r = CHR ''-'') \<and> ci_starts (tl r) ''token=''
                  then Some 13
                  else if ci_starts r ''token='' then Some 12 else None)
         in case g of
              None \<Rightarrow> None
            | Some g \<Rightarrow>
                (let v = takeWhile value_char (drop g s)
                 in if v \<noteq> [] then Some (g, g + length v) else None))
      else None)"

text \<open>\<^verbatim>\<open>/(authorization:)\s*\S+/gi\<close>\<close>

definition re_authorization :: "string \<Rightarrow> (nat \<times> nat) option" where
  "re_authorization s =
     (if ci_starts s ''authorization:'' then
        (let r = dropWhile is_space (drop 14 s);
             v = takeWhile (\<lambda>c. \<not> is_space c) r
         in if v \<noteq> [] then Some (14, length s - length r + length v) else None)
      else None)"

definition redactSecrets :: "string \<Rightarrow> string" where
  "redactSecrets text =
     (if text = [] then []
      else replace_all re_authorization '' ***''
             (replace_all re_access_token ''***''
                (replace_all re_token ''***'' text)))"

text \<open>
  The host as \<^verbatim>\<open>connect\<close> meets it. \<open>URL_parse\<close> is \<^verbatim>\<open>new URL(s)\<close> (\<open>None\<close> when it
  throws) and \<open>URL_href\<close> is \<^verbatim>\<open>toString()\<close> of a URL object after assignments to its
  fields. \<open>WebSocket_impl\<close> tells whether \<^verbatim>\<open>getWebSocketImpl\<close> finds an implementation.
  The last three fields answer the requests made of the network; their first argument
  is the number of requests made before, so that a request may be answered differently
  when it is repeated. Every function below returns, beside its result, the requests
  made so far, each recorded when it is made, whatever its outcome.
\<close>

record url =
  protocol :: string
  host :: string
  hostname :: string
  pathname :: string
  search :: string
  hash :: string

datatype dns_outcome = Dns_resolves | Dns_fails string

datatype fetch_outcome =
    Fetch_throws string string
  | Response nat "(string \<times> string) + json"

datatype ws_outcome = Ws_opens | Ws_times_out | Ws_errors | Ws_throws string string

datatype io = Dns_lookup string | Http_fetch string nat | Ws_connect jsval nat

record env =
  LIGHTPANDA_CDP_URL :: "string option"
  CDP_WS_URL :: "string option"
  URL_parse :: "string \<Rightarrow> url option"
  URL_href :: "url \<Rightarrow> string"
  WebSocket_impl :: bool
  WebSocket_send_throws :: "(string \<times> string) option"
  dns_lookup :: "nat \<Rightarrow> string \<Rightarrow> dns_outcome"
  fetch :: "nat \<Rightarrow> string \<Rightarrow> nat \<Rightarrow> fetch_outcome"
  WebSocket_connect :: "nat \<Rightarrow> jsval \<Rightarrow> nat \<Rightarrow> ws_outcome"

definition getCdpWsUrlFromEnv :: "env \<Rightarrow> string option" where
  "getCdpWsUrlFromEnv e =
     (let a = (case LIGHTPANDA_CDP_URL e of None \<Rightarrow> [] | Some v \<Rightarrow> v);
          b = (case CDP_WS_URL e of None \<Rightarrow> [] | Some v \<Rightarrow> v);
          raw = trim (if a \<noteq> [] then a else if b \<noteq> [] then b else [])
      in if raw = [] then None else Some raw)"

definition describeWsEndpoint :: "env \<Rightarrow> string \<Rightarrow> string" where
  "describeWsEndpoint e raw =
     (case URL_parse e raw of
        None \<Rightarrow> ''(invalid url)''
      | Some u \<Rightarrow> protocol u @ ''//'' @ host u @ pathname u)"

definition dns_failed_message :: "string \<Rightarrow> string" where
  "dns_failed_message h =
     ''DNS lookup failed for host '' @ [CHR 0x27] @ h @ [CHR 0x27] @ '' (ENOTFOUND).''"

definition assertDnsResolves :: "env \<Rightarrow> string \<Rightarrow> io list \<Rightarrow> (error + unit) \<times> io list" where
  "assertDnsResolves e h tr =
     (case dns_lookup e (length tr) h of
        Dns_resolves \<Rightarrow> (Inr (), tr @ [Dns_lookup h])
      | Dns_fails code \<Rightarrow>
          if code = ''ENOTFOUND'' then (Inl (Error (dns_failed_message h)), tr @ [Dns_lookup h])
          else (Inr (), tr @ [Dns_lookup h]))"

definition no_websocket_message :: string where
  "no_websocket_message =
     ''WebSocket is not available in this Node.js runtime. Use Node >= 20 (recommended) or install the ''
     @ [CHR 0x27] @ ''ws'' @ [CHR 0x27] @ '' package.''"

definition connectWebSocket :: "env \<Rightarrow> jsval \<Rightarrow> nat \<Rightarrow> io list \<Rightarrow> (error + cdp) \<times> io list" where
  "connectWebSocket e wsUrl timeout tr =
     (if \<not> WebSocket_impl e then (Inl (Error no_websocket_message), tr)
      else
        (case WebSocket_connect e (length tr) wsUrl timeout of
           Ws_opens \<Rightarrow>
             (Inr (CDP_new (ws_open wsUrl (WebSocket_send_throws e))),
              tr @ [Ws_connect wsUrl timeout])
         | Ws_times_out \<Rightarrow>
             (Inl (Error ''WebSocket connect timeout''), tr @ [Ws_connect wsUrl timeout])
         | Ws_errors \<Rightarrow> (Inl (Error ''WebSocket error''), tr @ [Ws_connect wsUrl timeout])
         | Ws_throws n m \<Rightarrow> (Inl (HostError n m), tr @ [Ws_connect wsUrl timeout])))"

definition fetchJsonWithTimeout ::
  "env \<Rightarrow> string \<Rightarrow> nat \<Rightarrow> io list \<Rightarrow> (error + json) \<times> io list" where
  "fetchJsonWithTimeout e u timeoutMs tr =
     (case fetch e (length tr) u timeoutMs of
        Fetch_throws n m \<Rightarrow> (Inl (HostError n m), tr @ [Http_fetch u timeoutMs])
      | Response status body \<Rightarrow>
          if \<not> (200 \<le> status \<and> status \<le> 299)
          then (Inl (Error (''HTTP '' @ show_nat status)), tr @ [Http_fetch u timeoutMs])
          else
            (case body of
               Inl (n, m) \<Rightarrow> (Inl (HostError n m), tr @ [Http_fetch u timeoutMs])
             | Inr j \<Rightarrow> (Inr j, tr @ [Http_fetch u timeoutMs])))"

definition invalid_url_error :: error where
  "invalid_url_error = HostError ''TypeError'' ''Invalid URL''"

definition joinUrl :: "env \<Rightarrow> string \<Rightarrow> string \<Rightarrow> error + string" where
  "joinUrl e base path =
     (case URL_parse e base of
        None \<Rightarrow> Inl invalid_url_error
      | Some u \<Rightarrow>
          (let normalized = (if startsWith path ''/'' then path else ''/'' @ path);
               p = pathname u;
               p' = (if p \<noteq> [] \<and> last p = CHR ''/'' then butlast p else p)
           in Inr (URL_href e (u\<lparr>pathname := p' @ normalized\<rparr>))))"

definition resolveWsFromHttp ::
  "env \<Rightarrow> string \<Rightarrow> nat \<Rightarrow> io list \<Rightarrow> (error + jsval) \<times> io list" where
  "resolveWsFromHttp e httpUrl timeoutMs tr =
     (case fetchJsonWithTimeout e httpUrl timeoutMs tr of
        (r1, tr1) \<Rightarrow>
          (case (case r1 of
                   Inl err \<Rightarrow> None
                 | Inr j \<Rightarrow>
                     if truthy (opt_get (Some j) ''webSocketDebuggerUrl'')
                     then Some (opt_get (Some j) ''webSocketDebuggerUrl'') else None) of
             Some found \<Rightarrow> (Inr found, tr1)
           | None \<Rightarrow>
               (case joinUrl e httpUrl ''/json/version'' of
                  Inl err \<Rightarrow> (Inl err, tr1)
                | Inr versionUrl \<Rightarrow>
                    (case fetchJsonWithTimeout e versionUrl timeoutMs tr1 of
                       (Inl err, tr2) \<Rightarrow> (Inl err, tr2)
                     | (Inr j, tr2) \<Rightarrow>
                         if truthy (opt_get (Some j) ''webSocketDebuggerUrl'')
                         then (Inr (opt_get (Some j) ''webSocketDebuggerUrl''), tr2)
                         else (Inl (Error ''Could not resolve webSocketDebuggerUrl from HTTP endpoint.''),
                               tr2)))))"

definition guessWsFromHttp :: "env \<Rightarrow> string \<Rightarrow> error + string" where
  "guessWsFromHttp e httpUrl =
     (case URL_parse e httpUrl of
        None \<Rightarrow> Inl invalid_url_error
      | Some u \<Rightarrow>
          (let u1 = u\<lparr>protocol := (if protocol u = ''https:'' then ''wss:'' else ''ws:'')\<rparr>;
               u2 = (if pathname u1 = [] \<or> pathname u1 = ''/'' then u1\<lparr>pathname := ''/ws''\<rparr>
                     else u1)
           in Inr (URL_href e u2)))"

definition invalid_endpoint_message :: string where
  "invalid_endpoint_message =
     ''Invalid LIGHTPANDA_CDP_URL/CDP_WS_URL (must start with ws://, wss://, http://, or https://).''"

text \<open>The body of the outer \<^verbatim>\<open>try\<close> of \<^verbatim>\<open>connect\<close>, for the endpoint of the environment.\<close>

definition connect_try :: "env \<Rightarrow> string \<Rightarrow> nat \<Rightarrow> (error + cdp) \<times> io list" where
  "connect_try e envWsUrl timeout =
     (case (case URL_parse e envWsUrl of
              None \<Rightarrow> (Inr (), [])
            | Some parsed \<Rightarrow>
                if hostname parsed \<noteq> [] then assertDnsResolves e (hostname parsed) []
                else (Inr (), [])) of
        (Inl err, tr0) \<Rightarrow> (Inl err, tr0)
      | (Inr u, tr0) \<Rightarrow>
          if startsWith envWsUrl ''ws://'' \<or> startsWith envWsUrl ''wss://''
          then connectWebSocket e (Some (JStr envWsUrl)) timeout tr0
          else if startsWith envWsUrl ''http://'' \<or> startsWith envWsUrl ''https://''
          then
            (case (case guessWsFromHttp e envWsUrl of
                     Inl err \<Rightarrow> (Inl err, tr0)
                   | Inr guess \<Rightarrow> connectWebSocket e (Some (JStr guess)) timeout tr0) of
               (Inr client, tr1) \<Rightarrow> (Inr client, tr1)
             | (Inl err, tr1) \<Rightarrow>
                 (case resolveWsFromHttp e envWsUrl timeout tr1 of
                    (Inl err', tr2) \<Rightarrow> (Inl err', tr2)
                  | (Inr wsUrl, tr2) \<Rightarrow> connectWebSocket e wsUrl timeout tr2))
          else (Inl (Error invalid_endpoint_message), tr0))"

definition failed_to_connect_message :: "string \<Rightarrow> string \<Rightarrow> string" where
  "failed_to_connect_message endpoint detail =
     ''Failed to connect to CDP websocket at '' @ endpoint
     @ ''. Verify LIGHTPANDA_CDP_URL and your network access.''
     @ (if detail \<noteq> [] then '' '' @ detail else [])"

definition connection_timeout_message :: string where
  "connection_timeout_message =
     ''Connection timeout - set LIGHTPANDA_CDP_URL (recommended) or run Chrome with --remote-debugging-port=9222.''"

definition destructure_TypeError :: error where
  "destructure_TypeError =
     HostError ''TypeError'' ''Cannot destructure property webSocketDebuggerUrl of null''"

text \<open>The fallback of \<^verbatim>\<open>connect\<close>: a browser on this machine at port 9222.\<close>

definition connect_fallback :: "env \<Rightarrow> nat \<Rightarrow> (error + cdp) \<times> io list" where
  "connect_fallback e timeout =
     (case (case fetch e 0 ''http://localhost:9222/json/version'' timeout of
              Fetch_throws n m \<Rightarrow>
                (Inl (HostError n m), [Http_fetch ''http://localhost:9222/json/version'' timeout])
            | Response status body \<Rightarrow>
                (case body of
                   Inl (n, m) \<Rightarrow>
                     (Inl (HostError n m),
                      [Http_fetch ''http://localhost:9222/json/version'' timeout])
                 | Inr JNull \<Rightarrow>
                     (Inl destructure_TypeError,
                      [Http_fetch ''http://localhost:9222/json/version'' timeout])
                 | Inr j \<Rightarrow>
                     connectWebSocket e (get_prop j ''webSocketDebuggerUrl'') timeout
                       [Http_fetch ''http://localhost:9222/json/version'' timeout])) of
        (Inr client, tr) \<Rightarrow> (Inr client, tr)
      | (Inl err, tr) \<Rightarrow>
          if name err = ''AbortError'' then (Inl (Error connection_timeout_message), tr)
          else (Inl err, tr))"

text \<open>
  \<^verbatim>\<open>connect(timeout)\<close>: the client or the exception, and the requests made of the
  network, in order.
\<close>

definition connect :: "env \<Rightarrow> nat \<Rightarrow> (error + cdp) \<times> io list" where
  "connect e timeout =
     (case getCdpWsUrlFromEnv e of
        Some envWsUrl \<Rightarrow>
          (case connect_try e envWsUrl timeout of
             (Inr client, tr) \<Rightarrow> (Inr client, tr)
           | (Inl err, tr) \<Rightarrow>
               (Inl (Error (failed_to_connect_message (describeWsEndpoint e envWsUrl)
                              (redactSecrets (message err)))), tr))
      | None \<Rightarrow> connect_fallback e timeout)"

section \<open>Consistency of the client's bookkeeping\<close>

text \<open>
  What holds of a client between any two events: the counter is the number of calls
  of \<^verbatim>\<open>send\<close> so far, the \<open>k\<close>-th call (from 0) has the identifier \<open>k + 1\<close>, an entry
  of \<^verbatim>\<open>callbacks\<close> under an identifier holds the closures of the call with that
  identifier, whose timer is armed, and conversely; and a pending promise has its timer
  armed.
\<close>

definition consistent :: "cdp \<Rightarrow> bool" where
  "consistent s \<longleftrightarrow>
     id_ctr s = int (length (calls s)) \<and>
     (\<forall>k < length (calls s). call_msgId (calls s ! k) = int k + 1) \<and>
     (\<forall>i k. callbacks s i = Some k \<longrightarrow>
        k < length (calls s) \<and> i = int k + 1 \<and> timer_armed (calls s ! k)) \<and>
     (\<forall>k < length (calls s). timer_armed (calls s ! k) \<longrightarrow> callbacks s (int k + 1) = Some k) \<and>
     (\<forall>k < length (calls s). settled (calls s ! k) = None \<longrightarrow> timer_armed (calls s ! k))"

text \<open>A call keeps its place, its method and its identifier.\<close>

definition same_call :: "cdp \<Rightarrow> cdp \<Rightarrow> nat \<Rightarrow> bool" where
  "same_call s s' k \<longleftrightarrow> k < length (calls s') \<and>
     call_method (calls s' ! k) = call_method (calls s ! k) \<and>
     call_msgId (calls s' ! k) = call_msgId (calls s ! k)"

section \<open>An example host\<close>

text \<open>
  Frames as they arrive over the wire, and a parser that returns on them what
  \<^verbatim>\<open>JSON.parse\<close> returns and rejects any other text; an open socket; and two handlers,
  of which handler 1 throws. A handler records its call in the caller's state.
\<close>

definition quoted :: "string \<Rightarrow> string" where
  "quoted s = CHR 0x22 # s @ [CHR 0x22]"

definition frame_result :: string where
  "frame_result = ''{'' @ quoted ''id'' @ '':1,'' @ quoted ''result'' @ '':{'' @ quoted ''product''
     @ '':'' @ quoted ''Lightpanda'' @ ''}}''"

definition frame_error :: string where
  "frame_error = ''{'' @ quoted ''id'' @ '':2,'' @ quoted ''error'' @ '':{'' @ quoted ''message''
     @ '':'' @ quoted ''No target with given id'' @ ''}}''"

definition frame_unsolicited :: string where
  "frame_unsolicited = ''{'' @ quoted ''id'' @ '':7,'' @ quoted ''result'' @ '':{}}''"

definition frame_event :: string where
  "frame_event = ''{'' @ quoted ''method'' @ '':'' @ quoted ''Page.loadEventFired'' @ '',''
     @ quoted ''params'' @ '':{'' @ quoted ''timestamp'' @ '':1}}''"

definition example_parse :: "string \<Rightarrow> string + json" where
  "example_parse raw =
     (if raw = frame_result
      then Inr (JObj [(''id'', JNum 1), (''result'', JObj [(''product'', JStr ''Lightpanda'')])])
      else if raw = frame_error
      then Inr (JObj [(''id'', JNum 2),
                      (''error'', JObj [(''message'', JStr ''No target with given id'')])])
      else if raw = frame_unsolicited
      then Inr (JObj [(''id'', JNum 7), (''result'', JObj [])])
      else if raw = frame_event
      then Inr (JObj [(''method'', JStr ''Page.loadEventFired''),
                      (''params'', JObj [(''timestamp'', JNum 1)])])
      else Inl ''Unexpected token'')"

definition example_ws :: websocket where
  "example_ws = ws_open (Some (JStr ''ws://127.0.0.1:9222/devtools/browser'')) None"

text \<open>The same socket as the \<^verbatim>\<open>ws\<close> package has it: \<^verbatim>\<open>send\<close> throws once it is closed.\<close>

definition example_ws_package :: websocket where
  "example_ws_package =
     ws_open (Some (JStr ''ws://127.0.0.1:9222/devtools/browser''))
       (Some (''Error'', ''WebSocket is not open: readyState 3 (CLOSED)''))"

definition example_handlers :: "nat list handlers" where
  "example_handlers h params sessionId w =
     (if h = 1 then (Some (Error ''handler failed''), w @ [h]) else (None, w @ [h]))"

text \<open>
  A host for \<^verbatim>\<open>connect\<close>: no endpoint in the environment, a browser that answers
  on port 9222, a resolver that knows every name, sockets that open. \<open>example_URL\<close> is
  \<^verbatim>\<open>new URL\<close> on the one endpoint used below. \<open>ftp_env\<close> is the same host with an
  \<^verbatim>\<open>ftp\<close> endpoint in the environment, \<open>abort_env\<close> the same host when the fetch is
  aborted by the timer.
\<close>

definition example_URL :: "string \<Rightarrow> url option" where
  "example_URL raw =
     (if raw = ''ftp://host/path''
      then Some \<lparr>protocol = ''ftp:'', host = ''host'', hostname = ''host'',
                 pathname = ''/path'', search = [], hash = []\<rparr>
      else None)"

definition example_env :: env where
  "example_env =
     \<lparr>LIGHTPANDA_CDP_URL = None, CDP_WS_URL = None,
      URL_parse = example_URL,
      URL_href = (\<lambda>u. protocol u @ ''//'' @ host u @ pathname u @ search u @ hash u),
      WebSocket_impl = True, WebSocket_send_throws = None,
      dns_lookup = (\<lambda>n h. Dns_resolves),
      fetch = (\<lambda>n u t.
        if u = ''http://localhost:9222/json/version''
        then Response 200 (Inr (JObj [(''webSocketDebuggerUrl'',
                                        JStr ''ws://localhost:9222/devtools/browser/b1'')]))
        else Fetch_throws ''TypeError'' ''fetch failed''),
      WebSocket_connect = (\<lambda>n u t. Ws_opens)\<rparr>"

definition ftp_env :: env where
  "ftp_env = example_env\<lparr>LIGHTPANDA_CDP_URL := Some ''ftp://host/path''\<rparr>"

definition abort_env :: env where
  "abort_env =
     example_env\<lparr>fetch := (\<lambda>n u t. Fetch_throws ''AbortError'' ''This operation was aborted'')\<rparr>"

section \<open>The bookkeeping stays consistent\<close>


lemma consistent_CDP_new: "consistent (CDP_new w)"
  by (simp add: consistent_def CDP_new_def)

lemma send_id_ctr: "id_ctr (snd (send s m p sid t)) = id_ctr s + 1"
  by (simp add: send_def settle_def Let_def split: sum.splits)

lemma send_callbacks:
  "callbacks (snd (send s m p sid t)) = (callbacks s)(id_ctr s + 1 \<mapsto> length (calls s))"
  by (simp add: send_def settle_def Let_def split: sum.splits)

lemma send_eventHandlers: "eventHandlers (snd (send s m p sid t)) = eventHandlers s"
  by (simp add: send_def settle_def Let_def split: sum.splits)

lemma send_calls:
  "\<exists>c. calls (snd (send s m p sid t)) = calls s @ [c] \<and> call_msgId c = id_ctr s + 1 \<and>
       call_method c = m \<and> call_timeout c = t \<and> timer_armed c \<and>
       (settled c = None \<or> (\<exists>e. ws_send (ws s) (out_msg (id_ctr s + 1) m p sid) = Inl e
          \<and> settled c = Some (Rejected e)))"
  by (simp add: send_def settle_def Let_def split: sum.splits)

lemma send_fst: "fst (send s m p sid t) = length (calls s)"
  by (simp add: send_def Let_def split: sum.splits)

lemma consistent_send:
  assumes "consistent s"
  shows "consistent (snd (send s m p sid t))"
proof -
  obtain c where c: "calls (snd (send s m p sid t)) = calls s @ [c]"
      "call_msgId c = id_ctr s + 1" "timer_armed c"
    using send_calls [of s m p sid t] by blast
  from assms have a:
    "id_ctr s = int (length (calls s))"
    "\<And>k. k < length (calls s) \<Longrightarrow> call_msgId (calls s ! k) = int k + 1"
    "\<And>i k. callbacks s i = Some k \<Longrightarrow> k < length (calls s) \<and> i = int k + 1 \<and> timer_armed (calls s ! k)"
    "\<And>k. k < length (calls s) \<Longrightarrow> timer_armed (calls s ! k) \<Longrightarrow> callbacks s (int k + 1) = Some k"
    "\<And>k. k < length (calls s) \<Longrightarrow> settled (calls s ! k) = None \<Longrightarrow> timer_armed (calls s ! k)"
    unfolding consistent_def by blast+
  show ?thesis
    unfolding consistent_def send_id_ctr send_callbacks c
  proof (intro conjI allI impI)
    show "id_ctr s + 1 = int (length (calls s @ [c]))" using a(1) by simp
  next
    fix k assume "k < length (calls s @ [c])"
    then show "call_msgId ((calls s @ [c]) ! k) = int k + 1"
      using a(1,2) c(2) by (cases "k < length (calls s)") (auto simp: nth_append)
  next
    fix i k assume h: "((callbacks s)(id_ctr s + 1 \<mapsto> length (calls s))) i = Some k"
    show "k < length (calls s @ [c])"
      using h a(3) [of i k] by (auto split: if_splits)
    show "i = int k + 1"
      using h a(1) a(3) [of i k] by (auto split: if_splits)
    show "timer_armed ((calls s @ [c]) ! k)"
      using h a(3) [of i k] c(3) by (auto simp: nth_append split: if_splits)
  next
    fix k assume "k < length (calls s @ [c])" "timer_armed ((calls s @ [c]) ! k)"
    then show "((callbacks s)(id_ctr s + 1 \<mapsto> length (calls s))) (int k + 1) = Some k"
      using a(1) a(4) [of k] by (cases "k < length (calls s)") (auto simp: nth_append)
  next
    fix k assume "k < length (calls s @ [c])" "settled ((calls s @ [c]) ! k) = None"
    then show "timer_armed ((calls s @ [c]) ! k)"
      using a(5) [of k] c(3) by (cases "k < length (calls s)") (auto simp: nth_append)
  qed
qed

lemma consistent_close: "consistent s \<Longrightarrow> consistent (close s)"
  by (simp add: consistent_def close_def)

lemma consistent_on: "consistent s \<Longrightarrow> consistent (on s m h)"
  by (simp add: consistent_def on_def Let_def)

lemma consistent_off: "consistent s \<Longrightarrow> consistent (off s m h)"
  by (simp add: consistent_def off_def Let_def split: option.splits)

text \<open>Disarming the timer of a call, deleting its entry and settling its promise.\<close>

lemma consistent_finish:
  assumes "consistent s" "k < length (calls s)"
    and cs: "calls s' = (calls s)[k := c']" "\<not> timer_armed c'" "settled c' \<noteq> None"
       "call_msgId c' = call_msgId (calls s ! k)"
    and cb: "callbacks s' = (callbacks s)(int k + 1 := None)"
    and idc: "id_ctr s' = id_ctr s"
  shows "consistent s'"
proof -
  from assms(1) have a:
    "id_ctr s = int (length (calls s))"
    "\<And>k. k < length (calls s) \<Longrightarrow> call_msgId (calls s ! k) = int k + 1"
    "\<And>i k. callbacks s i = Some k \<Longrightarrow> k < length (calls s) \<and> i = int k + 1 \<and> timer_armed (calls s ! k)"
    "\<And>k. k < length (calls s) \<Longrightarrow> timer_armed (calls s ! k) \<Longrightarrow> callbacks s (int k + 1) = Some k"
    "\<And>k. k < length (calls s) \<Longrightarrow> settled (calls s ! k) = None \<Longrightarrow> timer_armed (calls s ! k)"
    unfolding consistent_def by blast+
  show ?thesis
    unfolding consistent_def cs(1) cb idc
  proof (intro conjI allI impI)
    show "id_ctr s = int (length ((calls s)[k := c']))" using a(1) by simp
  next
    fix j assume "j < length ((calls s)[k := c'])"
    then show "call_msgId ((calls s)[k := c'] ! j) = int j + 1"
      using a(2) [of j] a(2) [of k] assms(2) cs(4) by (cases "j = k") (auto simp: nth_list_update)
  next
    fix i j assume h: "((callbacks s)(int k + 1 := None)) i = Some j"
    show "j < length ((calls s)[k := c'])"
      using h a(3) [of i j] by (auto split: if_splits)
    show "i = int j + 1"
      using h a(3) [of i j] by (auto split: if_splits)
    show "timer_armed ((calls s)[k := c'] ! j)"
      using h a(3) [of i j] by (cases "j = k") (auto simp: nth_list_update split: if_splits)
  next
    fix j assume "j < length ((calls s)[k := c'])" "timer_armed ((calls s)[k := c'] ! j)"
    then show "((callbacks s)(int k + 1 := None)) (int j + 1) = Some j"
      using a(4) [of j] cs(2) by (cases "j = k") (auto simp: nth_list_update)
  next
    fix j assume "j < length ((calls s)[k := c'])" "settled ((calls s)[k := c'] ! j) = None"
    then show "timer_armed ((calls s)[k := c'] ! j)"
      using a(5) [of j] cs(3) by (cases "j = k") (auto simp: nth_list_update)
  qed
qed

lemma consistent_timer:
  assumes "consistent s"
  shows "consistent (timer_fires k s)"
proof (cases "k < length (calls s) \<and> timer_armed (calls s ! k)")
  case False
  then show ?thesis using assms by (auto simp: timer_fires_def)
next
  case True
  then have k: "k < length (calls s)" and "timer_armed (calls s ! k)" by auto
  from assms k have mid: "call_msgId (calls s ! k) = int k + 1"
    unfolding consistent_def by blast
  show ?thesis
  proof (cases "settled (calls s ! k)")
    case None
    show ?thesis
      by (rule consistent_finish [OF assms k,
            where c' = "(calls s ! k)\<lparr>timer_armed := False,
              settled := Some (Rejected (Error (''CDP timeout: '' @ call_method (calls s ! k))))\<rparr>"])
         (use True None mid in \<open>simp_all add: timer_fires_def settle_def Let_def\<close>)
  next
    case (Some a)
    show ?thesis
      by (rule consistent_finish [OF assms k,
            where c' = "(calls s ! k)\<lparr>timer_armed := False\<rparr>"])
         (use True Some mid in \<open>simp_all add: timer_fires_def settle_def Let_def\<close>)
  qed
qed

lemma listener_syntax:
  "JSON_parse raw = Inl m \<Longrightarrow>
   message_listener JSON_parse code s raw w = Inl (HostError ''SyntaxError'' m)"
  by (simp add: message_listener_def)

lemma listener_null:
  "JSON_parse raw = Inr JNull \<Longrightarrow>
   message_listener JSON_parse code s raw w = Inl (TypeError_read ''null'' ''id'')"
  by (simp add: message_listener_def)

lemma listener_reply:
  assumes "JSON_parse raw = Inr msg" "msg \<noteq> JNull"
    "truthy (get_prop msg ''id'')" "callbacks_get s (get_prop msg ''id'') = Some k"
  shows "message_listener JSON_parse code s raw w =
     Inr (if truthy (get_prop msg ''error'')
          then cb_reject k (Error_new (opt_get (get_prop msg ''error'') ''message''))
                 (callbacks_delete s (get_prop msg ''id''))
          else cb_resolve k (get_prop msg ''result'') (callbacks_delete s (get_prop msg ''id'')),
          [], w)"
  using assms by (cases msg) (simp_all add: message_listener_def Let_def)

lemma listener_other:
  assumes "JSON_parse raw = Inr msg" "msg \<noteq> JNull"
    "\<not> truthy (get_prop msg ''id'') \<or> callbacks_get s (get_prop msg ''id'') = None"
  shows "message_listener JSON_parse code s raw w =
     (if truthy (get_prop msg ''method'')
      then Inr (s, emit code s (the (get_prop msg ''method''))
                     (or_else (get_prop msg ''params'') (JObj []))
                     (or_else (get_prop msg ''sessionId'') JNull) w)
      else Inr (s, [], w))"
  using assms by (cases msg) (auto simp: message_listener_def Let_def split: option.splits prod.splits)

lemma callbacks_get_Some:
  "callbacks_get s v = Some k \<Longrightarrow> \<exists>n. v = Some (JNum n) \<and> callbacks s n = Some k"
  by (cases "(s, v)" rule: callbacks_get.cases) auto

lemma consistent_settle_entry:
  assumes "consistent s" "callbacks s n = Some k"
  shows "consistent (settle k out (clearTimeout k (s\<lparr>callbacks := (callbacks s)(n := None)\<rparr>)))"
proof -
  from assms have k: "k < length (calls s)" and n: "n = int k + 1"
    unfolding consistent_def by blast+
  show ?thesis
  proof (cases "settled (calls s ! k)")
    case None
    show ?thesis
      by (rule consistent_finish [OF assms(1) k,
            where c' = "(calls s ! k)\<lparr>timer_armed := False, settled := Some out\<rparr>"])
         (use k n None in \<open>simp_all add: clearTimeout_def settle_def\<close>)
  next
    case (Some a)
    show ?thesis
      by (rule consistent_finish [OF assms(1) k,
            where c' = "(calls s ! k)\<lparr>timer_armed := False\<rparr>"])
         (use k n Some in \<open>simp_all add: clearTimeout_def settle_def\<close>)
  qed
qed

lemma consistent_listener:
  assumes "consistent s" "message_listener JSON_parse code s raw w = Inr (s', called, w')"
  shows "consistent s'"
proof (cases "JSON_parse raw")
  case (Inl m)
  then show ?thesis using assms(2) by (simp add: listener_syntax)
next
  case (Inr msg)
  show ?thesis
  proof (cases "msg = JNull")
    case True
    then show ?thesis using assms(2) Inr by (simp add: listener_null)
  next
    case False
    show ?thesis
    proof (cases "truthy (get_prop msg ''id'') \<and> callbacks_get s (get_prop msg ''id'') \<noteq> None")
      case True
      then obtain k where k: "callbacks_get s (get_prop msg ''id'') = Some k" by auto
      then obtain n where n: "get_prop msg ''id'' = Some (JNum n)" "callbacks s n = Some k"
        using callbacks_get_Some by blast
      have "s' = (if truthy (get_prop msg ''error'')
          then cb_reject k (Error_new (opt_get (get_prop msg ''error'') ''message''))
                 (callbacks_delete s (get_prop msg ''id''))
          else cb_resolve k (get_prop msg ''result'') (callbacks_delete s (get_prop msg ''id'')))"
        using listener_reply [of JSON_parse raw msg s k code w] Inr False k True assms(2) by simp
      then show ?thesis
        using consistent_settle_entry [OF assms(1) n(2)] n(1)
        by (simp add: cb_reject_def cb_resolve_def)
    next
      case no: False
      then have "s' = s"
        using listener_other [of JSON_parse raw msg s code w] Inr False assms(2)
        by (auto split: if_splits prod.splits)
      then show ?thesis using assms(1) by simp
    qed
  qed
qed

lemma consistent_step:
  "consistent (fst sw) \<Longrightarrow> consistent (fst (step JSON_parse code sw ev))"
proof (cases sw)
  case (Pair s w)
  assume "consistent (fst sw)"
  then have c: "consistent s" using Pair by simp
  show ?thesis
  proof (cases ev)
    case (Message raw)
    then show ?thesis
      using c Pair consistent_listener [OF c, of JSON_parse code raw w]
      by (auto split: sum.splits)
  qed (use c Pair in \<open>simp_all add: consistent_send consistent_timer consistent_close
        consistent_on consistent_off\<close>)
qed

lemma consistent_run:
  "consistent (fst sw) \<Longrightarrow> consistent (fst (run JSON_parse code sw evs))"
  unfolding run_def
  by (induction evs arbitrary: sw) (simp_all add: consistent_step)

lemma same_call_settle: "k < length (calls s) \<Longrightarrow> same_call s (settle j out s) k"
  by (simp add: same_call_def settle_def nth_list_update)

lemma same_call_clearTimeout: "k < length (calls s) \<Longrightarrow> same_call s (clearTimeout j s) k"
  by (simp add: same_call_def clearTimeout_def nth_list_update)

lemma same_call_trans: "same_call s s' k \<Longrightarrow> same_call s' s'' k \<Longrightarrow> same_call s s'' k"
  by (simp add: same_call_def)

lemma same_call_timer: "k < length (calls s) \<Longrightarrow> same_call s (timer_fires j s) k"
  by (simp add: same_call_def timer_fires_def settle_def Let_def nth_list_update)

lemma same_call_send: "k < length (calls s) \<Longrightarrow> same_call s (snd (send s m p sid t)) k"
  using send_calls [of s m p sid t] by (auto simp: same_call_def nth_append)

lemma same_call_cb:
  "k < length (calls s) \<Longrightarrow> same_call s (cb_reject j e (callbacks_delete s v)) k"
  "k < length (calls s) \<Longrightarrow> same_call s (cb_resolve j r (callbacks_delete s v)) k"
  by (cases "(s, v)" rule: callbacks_delete.cases;
      simp add: same_call_def cb_reject_def cb_resolve_def settle_def clearTimeout_def
        nth_list_update)+

lemma same_call_listener:
  assumes "k < length (calls s)" "message_listener JSON_parse code s raw w = Inr (s', called, w')"
  shows "same_call s s' k"
proof (cases "JSON_parse raw")
  case (Inl m)
  then show ?thesis using assms(2) by (simp add: listener_syntax)
next
  case (Inr msg)
  show ?thesis
  proof (cases "msg = JNull")
    case True
    then show ?thesis using assms(2) Inr by (simp add: listener_null)
  next
    case False
    show ?thesis
    proof (cases "truthy (get_prop msg ''id'') \<and> callbacks_get s (get_prop msg ''id'') \<noteq> None")
      case True
      then obtain j where j: "callbacks_get s (get_prop msg ''id'') = Some j" by auto
      have "s' = (if truthy (get_prop msg ''error'')
          then cb_reject j (Error_new (opt_get (get_prop msg ''error'') ''message''))
                 (callbacks_delete s (get_prop msg ''id''))
          else cb_resolve j (get_prop msg ''result'') (callbacks_delete s (get_prop msg ''id'')))"
        using listener_reply [of JSON_parse raw msg s j code w] Inr False j True assms(2) by simp
      then show ?thesis using same_call_cb [OF assms(1)] by simp
    next
      case no: False
      then have "s' = s"
        using listener_other [of JSON_parse raw msg s code w] Inr False assms(2)
        by (auto split: if_splits prod.splits)
      then show ?thesis using assms(1) by (simp add: same_call_def)
    qed
  qed
qed

lemma same_call_step:
  assumes "k < length (calls (fst sw))"
  shows "same_call (fst sw) (fst (step JSON_parse code sw ev)) k"
proof (cases sw)
  case (Pair s w)
  then have k: "k < length (calls s)" using assms by simp
  show ?thesis
  proof (cases ev)
    case (Message raw)
    then show ?thesis
      using k Pair same_call_listener [OF k, of JSON_parse code raw w]
      by (auto simp: same_call_def split: sum.splits)
  next
    case (Send m p sid t)
    then show ?thesis using k Pair same_call_send by simp
  next
    case (Timer j)
    then show ?thesis using k Pair same_call_timer by simp
  qed (use k Pair in \<open>simp_all add: same_call_def close_def on_def off_def Let_def
        split: option.splits\<close>)
qed

lemma same_call_run:
  "k < length (calls (fst sw)) \<Longrightarrow> same_call (fst sw) (fst (run JSON_parse code sw evs)) k"
  unfolding run_def
proof (induction evs arbitrary: sw)
  case Nil
  then show ?case by (simp add: same_call_def)
next
  case (Cons ev evs)
  have 1: "same_call (fst sw) (fst (step JSON_parse code sw ev)) k"
    using Cons.prems by (rule same_call_step)
  then have "k < length (calls (fst (step JSON_parse code sw ev)))"
    by (simp add: same_call_def)
  from Cons.IH [OF this] 1 show ?case
    using same_call_trans by fastforce
qed

text \<open>While the timer of a call is armed, its promise is as \<^verbatim>\<open>send\<close> left it.\<close>

lemma pending_while_armed_cb:
  assumes "k < length (calls s)"
    and "timer_armed (calls s ! k) \<longrightarrow> settled (calls s ! k) = None"
  shows "timer_armed (calls (cb_reject j e (callbacks_delete s v)) ! k)
           \<longrightarrow> settled (calls (cb_reject j e (callbacks_delete s v)) ! k) = None"
    and "timer_armed (calls (cb_resolve j r (callbacks_delete s v)) ! k)
           \<longrightarrow> settled (calls (cb_resolve j r (callbacks_delete s v)) ! k) = None"
  using assms
  by (cases "(s, v)" rule: callbacks_delete.cases;
      cases "j = k";
      simp add: cb_reject_def cb_resolve_def settle_def clearTimeout_def nth_list_update)+

lemma pending_while_armed_timer:
  assumes "k < length (calls s)"
    and "timer_armed (calls s ! k) \<longrightarrow> settled (calls s ! k) = None"
  shows "timer_armed (calls (timer_fires j s) ! k)
           \<longrightarrow> settled (calls (timer_fires j s) ! k) = None"
  using assms
  by (cases "j = k") (simp_all add: timer_fires_def settle_def Let_def nth_list_update)

lemma pending_while_armed_send:
  assumes "k < length (calls s)"
    and "timer_armed (calls s ! k) \<longrightarrow> settled (calls s ! k) = None"
  shows "timer_armed (calls (snd (send s m p sid t)) ! k)
           \<longrightarrow> settled (calls (snd (send s m p sid t)) ! k) = None"
  using assms send_calls [of s m p sid t] by (auto simp: nth_append)

lemma pending_while_armed_listener:
  assumes "k < length (calls s)"
    and "timer_armed (calls s ! k) \<longrightarrow> settled (calls s ! k) = None"
    and "message_listener JSON_parse code s raw w = Inr (s', called, w')"
  shows "timer_armed (calls s' ! k) \<longrightarrow> settled (calls s' ! k) = None"
proof (cases "JSON_parse raw")
  case (Inl m)
  then show ?thesis using assms(3) by (simp add: listener_syntax)
next
  case (Inr msg)
  show ?thesis
  proof (cases "msg = JNull")
    case True
    then show ?thesis using assms(3) Inr by (simp add: listener_null)
  next
    case False
    show ?thesis
    proof (cases "truthy (get_prop msg ''id'') \<and> callbacks_get s (get_prop msg ''id'') \<noteq> None")
      case True
      then obtain j where j: "callbacks_get s (get_prop msg ''id'') = Some j" by auto
      have "s' = (if truthy (get_prop msg ''error'')
          then cb_reject j (Error_new (opt_get (get_prop msg ''error'') ''message''))
                 (callbacks_delete s (get_prop msg ''id''))
          else cb_resolve j (get_prop msg ''result'') (callbacks_delete s (get_prop msg ''id'')))"
        using listener_reply [of JSON_parse raw msg s j code w] Inr False j True assms(3) by simp
      then show ?thesis using pending_while_armed_cb [OF assms(1,2)] by simp
    next
      case no: False
      then have "s' = s"
        using listener_other [of JSON_parse raw msg s code w] Inr False assms(3)
        by (auto split: if_splits prod.splits)
      then show ?thesis using assms(2) by simp
    qed
  qed
qed

lemma pending_while_armed_step:
  assumes "k < length (calls (fst sw))"
    and "timer_armed (calls (fst sw) ! k) \<longrightarrow> settled (calls (fst sw) ! k) = None"
  shows "timer_armed (calls (fst (step JSON_parse code sw ev)) ! k)
           \<longrightarrow> settled (calls (fst (step JSON_parse code sw ev)) ! k) = None"
proof (cases sw)
  case (Pair s w)
  then have k: "k < length (calls s)"
    and p: "timer_armed (calls s ! k) \<longrightarrow> settled (calls s ! k) = None"
    using assms by simp_all
  show ?thesis
  proof (cases ev)
    case (Message raw)
    then show ?thesis
      using p Pair pending_while_armed_listener [OF k p, of JSON_parse code raw w]
      by (auto split: sum.splits)
  next
    case (Send m ps sid t)
    then show ?thesis using Pair pending_while_armed_send [OF k p] by simp
  next
    case (Timer j)
    then show ?thesis using Pair pending_while_armed_timer [OF k p] by simp
  qed (use p Pair in \<open>simp_all add: close_def on_def off_def Let_def split: option.splits\<close>)
qed

lemma pending_while_armed_run:
  assumes "k < length (calls (fst sw))"
    and "timer_armed (calls (fst sw) ! k) \<longrightarrow> settled (calls (fst sw) ! k) = None"
  shows "timer_armed (calls (fst (run JSON_parse code sw evs)) ! k)
           \<longrightarrow> settled (calls (fst (run JSON_parse code sw evs)) ! k) = None"
  using assms unfolding run_def
proof (induction evs arbitrary: sw)
  case Nil
  then show ?case by simp
next
  case (Cons ev evs)
  have 1: "k < length (calls (fst (step JSON_parse code sw ev)))"
    using same_call_step [OF Cons.prems(1), of JSON_parse code ev] by (simp add: same_call_def)
  have 2: "timer_armed (calls (fst (step JSON_parse code sw ev)) ! k)
           \<longrightarrow> settled (calls (fst (step JSON_parse code sw ev)) ! k) = None"
    using pending_while_armed_step [OF Cons.prems] .
  from Cons.IH [OF 1 2] show ?case by simp
qed

lemmas example_frames = frame_result_def frame_error_def frame_unsolicited_def frame_event_def
  quoted_def

lemmas client_defs = send_def CDP_new_def ws_open_def ws_send_def Let_def out_msg_def
  example_ws_def settle_def

lemma reachable_consistent:
  "consistent (fst (run JSON_parse code (CDP_new w0, u) evs))"
  using consistent_run [of "(CDP_new w0, u)" JSON_parse code evs]
  by (simp add: consistent_CDP_new)

lemma emit_loop_eq:
  "emit_loop code hs params sessionId w
     = (hs, foldl (\<lambda>w h. snd (code h params sessionId w)) w hs)"
  by (induction hs arbitrary: w) (auto split: prod.splits option.splits)

lemma settle_entry_effect:
  assumes "k < length (calls s)" "settled (calls s ! k) = None"
  shows "settled (calls (settle k out (clearTimeout k (s\<lparr>callbacks := (callbacks s)(n := None)\<rparr>))) ! k)
           = Some out"
    and "\<not> timer_armed (calls (settle k out (clearTimeout k (s\<lparr>callbacks := (callbacks s)(n := None)\<rparr>))) ! k)"
    and "callbacks (settle k out (clearTimeout k (s\<lparr>callbacks := (callbacks s)(n := None)\<rparr>)))
           = (callbacks s)(n := None)"
    and "j \<noteq> k \<Longrightarrow>
         calls (settle k out (clearTimeout k (s\<lparr>callbacks := (callbacks s)(n := None)\<rparr>))) ! j
           = calls s ! j"
  using assms by (simp_all add: settle_def clearTimeout_def)

text \<open>Where no pattern of \<^verbatim>\<open>redactSecrets\<close> can match, the text is unchanged.\<close>

lemma upper_cases:
  "upper c = c \<or> (c, upper c) \<in> set (zip ''abcdefghijklmnopqrstuvwxyz'' ''ABCDEFGHIJKLMNOPQRSTUVWXYZ'')"
  unfolding upper_def by (auto split: option.splits dest: map_of_SomeD)

lemma upper_eq_sign: "upper c = upper CHR ''='' \<Longrightarrow> c = CHR ''=''"
  using upper_cases [of c] by (auto simp: upper_def)

lemma upper_Z: "upper c = upper CHR ''z'' \<Longrightarrow> c = CHR ''z'' \<or> c = CHR ''Z''"
  using upper_cases [of c] by (auto simp: upper_def)

lemma ci_starts_nth:
  "ci_starts s p \<Longrightarrow> i < length p \<Longrightarrow> i < length s \<and> upper (s ! i) = upper (p ! i)"
proof (induction s p arbitrary: i rule: ci_starts.induct)
  case (3 c cs p ps)
  then show ?case by (cases i) auto
qed simp_all

lemma ci_starts_token_eq_sign:
  assumes "ci_starts s ''token=''"
  shows "CHR ''='' \<in> set s"
proof -
  from ci_starts_nth [OF assms, of 5] have "5 < length s" "upper (s ! 5) = upper CHR ''=''"
    by simp_all
  then show ?thesis using upper_eq_sign nth_mem by metis
qed

lemma re_token_eq_sign: "re_token s \<noteq> None \<Longrightarrow> CHR ''='' \<in> set s"
  using ci_starts_token_eq_sign by (auto simp: re_token_def split: if_splits)

lemma re_access_token_eq_sign:
  assumes "re_access_token s \<noteq> None"
  shows "CHR ''='' \<in> set s"
proof -
  from assms have "ci_starts (tl (drop 6 s)) ''token='' \<or> ci_starts (drop 6 s) ''token=''"
    by (auto simp: re_access_token_def Let_def split: if_splits)
  then have "CHR ''='' \<in> set (tl (drop 6 s)) \<or> CHR ''='' \<in> set (drop 6 s)"
    using ci_starts_token_eq_sign by blast
  then show ?thesis
    by (metis in_set_dropD list.set_sel(2) tl_Nil)
qed

lemma re_authorization_z:
  assumes "re_authorization s \<noteq> None"
  shows "CHR ''z'' \<in> set s \<or> CHR ''Z'' \<in> set s"
proof -
  from assms have "ci_starts s ''authorization:''"
    by (auto simp: re_authorization_def split: if_splits)
  from ci_starts_nth [OF this, of 7]
  have "7 < length s" "upper (s ! 7) = upper CHR ''z''" by simp_all
  then show ?thesis using upper_Z nth_mem by metis
qed

lemma replace_all_no_match:
  assumes "\<And>t. m t \<noteq> None \<Longrightarrow> \<exists>c \<in> set t. P c" and "\<forall>c \<in> set s. \<not> P c"
  shows "replace_all m rep s = s"
  using assms(2)
proof (induction s)
  case (Cons c cs)
  have "m (c # cs) = None" using assms(1) [of "c # cs"] Cons.prems by blast
  then show ?case using Cons by simp
qed simp

lemma replace_all_token_id: "CHR ''='' \<notin> set s \<Longrightarrow> replace_all re_token rep s = s"
  by (rule replace_all_no_match [where P = "\<lambda>c. c = CHR ''=''"])
     (use re_token_eq_sign in auto)

lemma replace_all_access_token_id:
  "CHR ''='' \<notin> set s \<Longrightarrow> replace_all re_access_token rep s = s"
  by (rule replace_all_no_match [where P = "\<lambda>c. c = CHR ''=''"])
     (use re_access_token_eq_sign in auto)

lemma replace_all_authorization_id:
  "CHR ''z'' \<notin> set s \<Longrightarrow> CHR ''Z'' \<notin> set s \<Longrightarrow> replace_all re_authorization rep s = s"
  by (rule replace_all_no_match [where P = "\<lambda>c. c = CHR ''z'' \<or> c = CHR ''Z''"])
     (use re_authorization_z in auto)

lemma redactSecrets_invalid_endpoint_message:
  "redactSecrets invalid_endpoint_message = invalid_endpoint_message"
proof -
  have 1: "CHR ''='' \<notin> set invalid_endpoint_message"
    and 2: "CHR ''z'' \<notin> set invalid_endpoint_message"
    and 3: "CHR ''Z'' \<notin> set invalid_endpoint_message"
    by (simp_all add: invalid_endpoint_message_def)
  have 4: "invalid_endpoint_message \<noteq> []" by (simp add: invalid_endpoint_message_def)
  show ?thesis
    unfolding redactSecrets_def
    by (simp only: replace_all_token_id [OF 1] replace_all_access_token_id [OF 1]
        replace_all_authorization_id [OF 2 3] 4 if_False)
qed

text \<open>The hosts of the examples, and the errors of the fallback.\<close>

lemma getCdpWsUrlFromEnv_ftp: "getCdpWsUrlFromEnv ftp_env = Some ''ftp://host/path''"
  by (simp add: getCdpWsUrlFromEnv_def ftp_env_def example_env_def trim_def is_space_def)

lemma ftp_env_facts:
  "URL_parse ftp_env ''ftp://host/path''
     = Some \<lparr>protocol = ''ftp:'', host = ''host'', hostname = ''host'',
              pathname = ''/path'', search = [], hash = []\<rparr>"
  "dns_lookup ftp_env n h = Dns_resolves"
  by (simp_all add: ftp_env_def example_env_def example_URL_def)

lemma getCdpWsUrlFromEnv_unset:
  assumes "LIGHTPANDA_CDP_URL e = None \<or> LIGHTPANDA_CDP_URL e = Some []"
    and "CDP_WS_URL e = None \<or> CDP_WS_URL e = Some []"
  shows "getCdpWsUrlFromEnv e = None"
  using assms by (auto simp: getCdpWsUrlFromEnv_def trim_def)

lemma connectWebSocket_errors:
  "fst (connectWebSocket e wsUrl t tr) = Inl err \<Longrightarrow>
     (\<exists>n m. err = HostError n m) \<or> err = Error ''WebSocket connect timeout'' \<or>
     err = Error ''WebSocket error'' \<or> err = Error no_websocket_message"
  by (auto simp: connectWebSocket_def split: if_splits ws_outcome.splits)

lemma connect_fallback_errors:
  assumes "fst (connect_fallback e t) = Inl err"
  shows "(\<exists>n m. err = HostError n m) \<or> err = Error connection_timeout_message \<or>
     err = Error ''WebSocket connect timeout'' \<or> err = Error ''WebSocket error'' \<or>
     err = Error no_websocket_message"
proof (cases "fetch e 0 ''http://localhost:9222/json/version'' t")
  case (Fetch_throws n m)
  then show ?thesis using assms by (auto simp: connect_fallback_def split: if_splits)
next
  case (Response status body)
  show ?thesis
  proof (cases body)
    case (Inl nm)
    then show ?thesis using assms Response
      by (cases nm) (auto simp: connect_fallback_def split: if_splits)
  next
    case (Inr j)
    show ?thesis
    proof (cases "j = JNull")
      case True
      then show ?thesis using assms Response Inr
        by (auto simp: connect_fallback_def destructure_TypeError_def split: if_splits)
    next
      case False
      let ?r = "connectWebSocket e (get_prop j ''webSocketDebuggerUrl'') t
                  [Http_fetch ''http://localhost:9222/json/version'' t]"
      have f: "connect_fallback e t =
          (case ?r of
             (Inr client, tr) \<Rightarrow> (Inr client, tr)
           | (Inl err, tr) \<Rightarrow>
               if name err = ''AbortError'' then (Inl (Error connection_timeout_message), tr)
               else (Inl err, tr))"
        using Response Inr False by (cases j) (simp_all add: connect_fallback_def)
      show ?thesis
      proof (cases "fst ?r")
        case (Inl err')
        from connectWebSocket_errors [OF Inl]
        have "(\<exists>n m. err' = HostError n m) \<or> err' = Error ''WebSocket connect timeout'' \<or>
          err' = Error ''WebSocket error'' \<or> err' = Error no_websocket_message" .
        moreover have "err = Error connection_timeout_message \<or> err = err'"
          using Inl f assms by (cases ?r) (auto split: if_splits)
        ultimately show ?thesis by blast
      next
        case (Inr c)
        with f assms show ?thesis by (cases ?r) auto
      qed
    qed
  qed
qed

lemma config_messages_differ:
  "connection_timeout_message \<noteq> invalid_endpoint_message"
  "''WebSocket connect timeout'' \<noteq> invalid_endpoint_message"
  "''WebSocket error'' \<noteq> invalid_endpoint_message"
  "no_websocket_message \<noteq> invalid_endpoint_message"
  "connection_timeout_message \<noteq> failed_to_connect_message ep d"
  "''WebSocket connect timeout'' \<noteq> failed_to_connect_message ep d"
  "''WebSocket error'' \<noteq> failed_to_connect_message ep d"
  "no_websocket_message \<noteq> failed_to_connect_message ep d"
  by (simp_all add: connection_timeout_message_def invalid_endpoint_message_def
      no_websocket_message_def failed_to_connect_message_def)

section \<open>The claims\<close>

text \<open>
  Claim C1. A frame that is not well-formed JSON must cost only that frame: the parse
  error is dropped or handed on, and the connection and the dispatch of later frames go
  on. The listener does not contain the error: the \<^verbatim>\<open>SyntaxError\<close> of \<^verbatim>\<open>JSON.parse\<close>
  leaves it as an exception, for every parser, client and frame.
\<close>

theorem C1_malformed_frame_leaves_listener:
  "JSON_parse raw = Inl m \<Longrightarrow>
   message_listener JSON_parse code s raw w = Inl (HostError ''SyntaxError'' m)"
  by (simp add: message_listener_def)

theorem C1_malformed_frame_witness:
  "example_parse ''not json'' = Inl ''Unexpected token'' \<and>
   message_listener example_parse example_handlers
     (snd (send (CDP_new example_ws) ''Browser.getVersion'' (JObj []) JNull 10000))
     ''not json'' []
     = Inl (HostError ''SyntaxError'' ''Unexpected token'')"
proof -
  have 1: "example_parse ''not json'' = Inl ''Unexpected token''"
    by (simp add: example_parse_def example_frames)
  from C1_malformed_frame_leaves_listener [where JSON_parse = example_parse
      and raw = "''not json''" and m = "''Unexpected token''", OF 1] 1
  show ?thesis by simp
qed

text \<open>
  Claim C2. A call of \<^verbatim>\<open>send\<close> that is pending when \<^verbatim>\<open>close()\<close> is called is rejected
  with a connection-closed error. It is not: after \<^verbatim>\<open>send\<close> and \<^verbatim>\<open>close()\<close> the promise
  is still pending.
\<close>

theorem C2_counterexample:
  "settled (calls (close (snd (send (CDP_new example_ws)
      ''Browser.getVersion'' (JObj []) JNull 10000))) ! 0) = None"
  by (simp add: close_def ws_close_def client_defs)

text \<open>
  Claim C2, as the code has it. \<^verbatim>\<open>close()\<close> closes the transport and nothing else. In
  every state that a client reaches, a call that is pending stays pending across
  \<^verbatim>\<open>close()\<close>, keeps its entry in \<^verbatim>\<open>callbacks\<close> and its timer armed, and is rejected
  when that timer fires, with the timeout error that carries its method name.
\<close>

theorem C2_close_leaves_calls_to_their_timers:
  assumes "s = fst (run JSON_parse code (CDP_new w0, u) evs)"
    and "k < length (calls s)" and "settled (calls s ! k) = None"
  shows "ws_closed (ws (close s)) \<and> calls (close s) = calls s \<and>
     callbacks (close s) = callbacks s \<and>
     timer_armed (calls (close s) ! k) \<and>
     callbacks (close s) (call_msgId (calls s ! k)) = Some k \<and>
     settled (calls (timer_fires k (close s)) ! k)
       = Some (Rejected (Error (''CDP timeout: '' @ call_method (calls s ! k))))"
proof -
  have "consistent s"
    using consistent_run [of "(CDP_new w0, u)" JSON_parse code evs] assms(1)
    by (simp add: consistent_CDP_new)
  then have a: "timer_armed (calls s ! k)" "call_msgId (calls s ! k) = int k + 1"
    "callbacks s (int k + 1) = Some k"
    using assms(2,3) unfolding consistent_def by blast+
  show ?thesis
    using a assms(2,3)
    by (simp add: close_def ws_close_def timer_fires_def settle_def Let_def)
qed

theorem C2_close_witness:
  "settled (calls (timer_fires 0 (close (fst (run example_parse example_handlers
      (CDP_new example_ws, [])
      [Send ''Browser.getVersion'' (JObj []) JNull 10000])))) ! 0)
   = Some (Rejected (Error ''CDP timeout: Browser.getVersion''))"
proof -
  let ?s = "fst (run example_parse example_handlers
      (CDP_new example_ws, [])
      [Send ''Browser.getVersion'' (JObj []) JNull 10000])"
  have 1: "0 < length (calls ?s)"
    by (simp add: run_def client_defs)
  have 2: "settled (calls ?s ! 0) = None"
    by (simp add: run_def client_defs)
  have 3: "call_method (calls ?s ! 0) = ''Browser.getVersion''"
    by (simp add: run_def client_defs)
  from C2_close_leaves_calls_to_their_timers [OF refl 1 2] 3 show ?thesis by simp
qed

text \<open>
  Claim C3. An endpoint whose scheme is none of \<^verbatim>\<open>ws://\<close>, \<^verbatim>\<open>wss://\<close>, \<^verbatim>\<open>http://\<close>
  and \<^verbatim>\<open>https://\<close> is rejected before any network I/O, without a DNS lookup. It is
  not: for \<^verbatim>\<open>ftp://host/path\<close> the name \<^verbatim>\<open>host\<close> is looked up, because
  \<^verbatim>\<open>assertDnsResolves\<close> runs before the scheme is tested.
\<close>

theorem C3_counterexample:
  "snd (connect ftp_env 5000) = [Dns_lookup ''host'']"
  by (simp add: connect_def getCdpWsUrlFromEnv_ftp connect_try_def assertDnsResolves_def
      startsWith_def ftp_env_facts)

text \<open>
  Claim C3, as the code has it. For an endpoint with none of the four schemes,
  \<^verbatim>\<open>connect\<close> makes no HTTP request and opens no socket, and fails. The only request it
  makes is the DNS lookup of the endpoint's host name, when the endpoint parses as a URL
  with one. The failure is the configuration error, inside the message
  \<^verbatim>\<open>Failed to connect to CDP websocket at ...\<close>, unless that lookup fails with
  \<^verbatim>\<open>ENOTFOUND\<close>, when it is the DNS error.
\<close>

theorem C3_unsupported_scheme_fails:
  assumes "getCdpWsUrlFromEnv e = Some u"
    and "\<not> startsWith u ''ws://''" and "\<not> startsWith u ''wss://''"
    and "\<not> startsWith u ''http://''" and "\<not> startsWith u ''https://''"
  shows "snd (connect e t) =
           (case URL_parse e u of
              None \<Rightarrow> []
            | Some p \<Rightarrow> if hostname p = [] then [] else [Dns_lookup (hostname p)]) \<and>
         fst (connect e t) =
           Inl (Error (failed_to_connect_message (describeWsEndpoint e u)
             (case URL_parse e u of
                None \<Rightarrow> invalid_endpoint_message
              | Some p \<Rightarrow>
                  if hostname p \<noteq> [] \<and> dns_lookup e 0 (hostname p) = Dns_fails ''ENOTFOUND''
                  then redactSecrets (dns_failed_message (hostname p))
                  else invalid_endpoint_message)))"
  using assms
  by (auto simp: connect_def connect_try_def assertDnsResolves_def
      redactSecrets_invalid_endpoint_message
      split: option.splits dns_outcome.splits)

theorem C3_unsupported_scheme_witness:
  "fst (connect ftp_env 5000) =
     Inl (Error (''Failed to connect to CDP websocket at ftp://host/path. ''
                 @ ''Verify LIGHTPANDA_CDP_URL and your network access. ''
                 @ invalid_endpoint_message)) \<and>
   snd (connect ftp_env 5000) = [Dns_lookup ''host'']"
proof -
  have s: "\<not> startsWith ''ftp://host/path'' ''ws://''" "\<not> startsWith ''ftp://host/path'' ''wss://''"
    "\<not> startsWith ''ftp://host/path'' ''http://''" "\<not> startsWith ''ftp://host/path'' ''https://''"
    by (simp_all add: startsWith_def)
  have n: "invalid_endpoint_message \<noteq> []" by (simp add: invalid_endpoint_message_def)
  from C3_unsupported_scheme_fails [OF getCdpWsUrlFromEnv_ftp s, of 5000]
  show ?thesis
    by (simp add: ftp_env_facts describeWsEndpoint_def failed_to_connect_message_def n)
qed

text \<open>
  Claim C4. A call of \<^verbatim>\<open>send(method, params, sessionId, timeoutMs)\<close> that has seen no
  matching reply when its timer expires fails with a timeout error whose message carries
  the method name. Not every such call: \<^verbatim>\<open>send\<close> arms the timer and stores the entry
  before it hands the message to the socket, and when the socket's \<^verbatim>\<open>send\<close> throws (the
  \<^verbatim>\<open>ws\<close> package, after \<^verbatim>\<open>close()\<close>) the promise is rejected with that exception. The
  call sees no reply, its timer is armed and expires, and the call has failed with the
  error of the transport.
\<close>

theorem C4_counterexample:
  "timer_armed (calls (snd (send (close (CDP_new example_ws_package)) ''Browser.getVersion''
       (JObj []) JNull 10000)) ! 0) \<and>
   settled (calls (timer_fires 0 (snd (send (close (CDP_new example_ws_package))
       ''Browser.getVersion'' (JObj []) JNull 10000))) ! 0)
     = Some (Rejected (HostError ''Error'' ''WebSocket is not open: readyState 3 (CLOSED)''))"
  by (simp add: timer_fires_def close_def ws_close_def send_def CDP_new_def ws_open_def
      ws_send_def Let_def out_msg_def settle_def example_ws_package_def)

text \<open>
  Claim C4, as the code has it. A call of \<^verbatim>\<open>send\<close> whose message the socket accepted
  and that has seen no matching reply when its timer expires fails with a timeout error
  whose message carries the method name; its entry in \<^verbatim>\<open>callbacks\<close> is removed at that
  moment; and a reply that arrives later for the same identifier is dropped without
  effect. Here \<open>s\<close> is any state reached after the call; the call has seen no reply in
  \<open>s\<close> when its timer is still armed.
\<close>

theorem C4_timeout_rejects_accepted_call:
  assumes "send s0 method params sessionId timeoutMs = (k, s1)"
    and "ws_send (ws s0) (out_msg (id_ctr s0 + 1) method params sessionId) = Inr w'"
    and "s = fst (run JSON_parse code (s1, w1) evs)"
    and "timer_armed (calls s ! k)"
    and "JSON_parse raw = Inr (JObj fs)"
    and "map_of fs ''id'' = Some (JNum (id_ctr s0 + 1))"
    and "\<not> truthy (map_of fs ''method'')"
  shows "settled (calls (timer_fires k s) ! k)
           = Some (Rejected (Error (''CDP timeout: '' @ method))) \<and>
         callbacks (timer_fires k s) (id_ctr s0 + 1) = None \<and>
         message_listener JSON_parse code (timer_fires k s) raw w
           = Inr (timer_fires k s, [], w)"
proof -
  have k: "k = length (calls s0)" and s1: "s1 = snd (send s0 method params sessionId timeoutMs)"
    using assms(1) send_fst [of s0 "method" "params" sessionId timeoutMs] by auto
  obtain c where c: "calls s1 = calls s0 @ [c]" "call_msgId c = id_ctr s0 + 1"
      "call_method c = method"
      "settled c = None \<or> (\<exists>e. ws_send (ws s0) (out_msg (id_ctr s0 + 1) method params sessionId)
          = Inl e \<and> settled c = Some (Rejected e))"
    using send_calls [of s0 "method" "params" sessionId timeoutMs] s1 by blast
  have k1: "k < length (calls (fst (s1, w1)))" using c(1) k by simp
  have "settled c = None" using c(4) assms(2) by auto
  then have p1: "timer_armed (calls (fst (s1, w1)) ! k) \<longrightarrow> settled (calls (fst (s1, w1)) ! k) = None"
    using c(1) k by simp
  from pending_while_armed_run [OF k1 p1, of JSON_parse code evs] assms(3,4)
  have pend: "settled (calls s ! k) = None" by simp
  from same_call_run [OF k1, of JSON_parse code evs]
  have sc: "k < length (calls s)" "call_method (calls s ! k) = method"
      "call_msgId (calls s ! k) = id_ctr s0 + 1"
    using assms(3) c k by (simp_all add: same_call_def)
  have 1: "settled (calls (timer_fires k s) ! k)
           = Some (Rejected (Error (''CDP timeout: '' @ method)))"
    using sc assms(4) pend by (simp add: timer_fires_def settle_def Let_def)
  have 2: "callbacks (timer_fires k s) (id_ctr s0 + 1) = None"
    using sc assms(4) pend by (simp add: timer_fires_def settle_def Let_def)
  have "callbacks_get (timer_fires k s) (get_prop (JObj fs) ''id'') = None"
    using 2 assms(6) by simp
  then have 3: "message_listener JSON_parse code (timer_fires k s) raw w
           = Inr (timer_fires k s, [], w)"
    using listener_other [of JSON_parse raw "JObj fs" "timer_fires k s" code w] assms(5,7)
    by simp
  from 1 2 3 show ?thesis by blast
qed

theorem C4_timeout_accepted_witness:
  "settled (calls (timer_fires 0 (snd (send (CDP_new example_ws) ''Browser.getVersion''
       (JObj []) JNull 10000))) ! 0)
     = Some (Rejected (Error ''CDP timeout: Browser.getVersion'')) \<and>
   callbacks (timer_fires 0 (snd (send (CDP_new example_ws) ''Browser.getVersion''
       (JObj []) JNull 10000))) 1 = None \<and>
   message_listener example_parse example_handlers
     (timer_fires 0 (snd (send (CDP_new example_ws) ''Browser.getVersion''
       (JObj []) JNull 10000))) frame_result []
     = Inr (timer_fires 0 (snd (send (CDP_new example_ws) ''Browser.getVersion''
       (JObj []) JNull 10000)), [], [])"
proof -
  let ?s0 = "CDP_new example_ws"
  let ?s1 = "snd (send ?s0 ''Browser.getVersion'' (JObj []) JNull 10000)"
  let ?m = "out_msg (id_ctr ?s0 + 1) ''Browser.getVersion'' (JObj []) JNull"
  have 1: "send ?s0 ''Browser.getVersion'' (JObj []) JNull 10000 = (0, ?s1)"
    by (simp add: client_defs)
  have a: "ws_send (ws ?s0) ?m = Inr ((ws ?s0)\<lparr>ws_sent := [?m]\<rparr>)"
    by (simp add: CDP_new_def example_ws_def ws_open_def ws_send_def)
  have 2: "?s1 = fst (run example_parse example_handlers (?s1, []) [])"
    by (simp add: run_def)
  have 3: "timer_armed (calls ?s1 ! 0)"
    by (simp add: client_defs)
  have 4: "example_parse frame_result
      = Inr (JObj [(''id'', JNum 1), (''result'', JObj [(''product'', JStr ''Lightpanda'')])])"
    by (simp add: example_parse_def)
  have 5: "map_of [(''id'', JNum 1), (''result'', JObj [(''product'', JStr ''Lightpanda'')])] ''id''
      = Some (JNum (id_ctr ?s0 + 1))"
    by (simp add: CDP_new_def)
  have 6: "\<not> truthy (map_of [(''id'', JNum 1), (''result'', JObj [(''product'', JStr ''Lightpanda'')])]
      ''method'')"
    by simp
  from C4_timeout_rejects_accepted_call [OF 1 a 2 3 4 5 6, of "[]"] show ?thesis
    by (simp add: CDP_new_def)
qed

text \<open>
  Claim C5. In every state that a client reaches, a frame whose \<^verbatim>\<open>id\<close> matches an
  entry of \<^verbatim>\<open>callbacks\<close> settles the pending call of that entry: when the frame carries
  an \<^verbatim>\<open>error\<close> (an object is truthy) the call is rejected with \<^verbatim>\<open>new Error\<close> of the
  \<^verbatim>\<open>message\<close> member, otherwise it is resolved with the frame's \<^verbatim>\<open>result\<close>; in both
  cases the timer is cleared and the entry removed, and no other call or entry changes.
  A reply whose \<^verbatim>\<open>id\<close> matches no entry is dropped: the listener returns and the client
  is as it was.
\<close>

theorem C5_reply_settles_its_call:
  assumes "s = fst (run JSON_parse code (CDP_new w0, u) evs)"
    and "JSON_parse raw = Inr msg" and "msg \<noteq> JNull"
  shows "(truthy (get_prop msg ''id'') \<and> callbacks_get s (get_prop msg ''id'') = Some k \<and>
          settled (calls s ! k) = None \<longrightarrow>
            (\<exists>s'. message_listener JSON_parse code s raw w = Inr (s', [], w) \<and>
               settled (calls s' ! k) =
                 Some (if truthy (get_prop msg ''error'')
                       then Rejected (Error_new (opt_get (get_prop msg ''error'') ''message''))
                       else Resolved (get_prop msg ''result'')) \<and>
               \<not> timer_armed (calls s' ! k) \<and>
               callbacks_get s' (get_prop msg ''id'') = None \<and>
               (\<forall>j. j \<noteq> k \<longrightarrow> calls s' ! j = calls s ! j) \<and>
               (\<forall>i. get_prop msg ''id'' \<noteq> Some (JNum i) \<longrightarrow> callbacks s' i = callbacks s i))) \<and>
         ((\<not> truthy (get_prop msg ''id'') \<or> callbacks_get s (get_prop msg ''id'') = None) \<and>
          \<not> truthy (get_prop msg ''method'') \<longrightarrow>
            message_listener JSON_parse code s raw w = Inr (s, [], w))"
proof (intro conjI impI)
  assume h: "truthy (get_prop msg ''id'') \<and> callbacks_get s (get_prop msg ''id'') = Some k \<and>
          settled (calls s ! k) = None"
  then obtain n where n: "get_prop msg ''id'' = Some (JNum n)" "callbacks s n = Some k"
    using callbacks_get_Some by blast
  have "consistent s" using assms(1) reachable_consistent by simp
  then have k: "k < length (calls s)" using n(2) unfolding consistent_def by blast
  let ?out = "if truthy (get_prop msg ''error'')
              then Rejected (Error_new (opt_get (get_prop msg ''error'') ''message''))
              else Resolved (get_prop msg ''result'')"
  let ?s' = "settle k ?out (clearTimeout k (s\<lparr>callbacks := (callbacks s)(n := None)\<rparr>))"
  have pend: "settled (calls s ! k) = None" using h by simp
  have l: "message_listener JSON_parse code s raw w = Inr (?s', [], w)"
    using listener_reply [of JSON_parse raw msg s k code w] assms(2,3) h n(1)
    by (simp add: cb_reject_def cb_resolve_def)
  have "settled (calls ?s' ! k) = Some ?out" "\<not> timer_armed (calls ?s' ! k)"
    "callbacks_get ?s' (get_prop msg ''id'') = None"
    "\<forall>j. j \<noteq> k \<longrightarrow> calls ?s' ! j = calls s ! j"
    "\<forall>i. get_prop msg ''id'' \<noteq> Some (JNum i) \<longrightarrow> callbacks ?s' i = callbacks s i"
    using settle_entry_effect [OF k pend, where out = ?out and n = n] n(1) by simp_all
  with l show "\<exists>s'. message_listener JSON_parse code s raw w = Inr (s', [], w) \<and>
               settled (calls s' ! k) =
                 Some (if truthy (get_prop msg ''error'')
                       then Rejected (Error_new (opt_get (get_prop msg ''error'') ''message''))
                       else Resolved (get_prop msg ''result'')) \<and>
               \<not> timer_armed (calls s' ! k) \<and>
               callbacks_get s' (get_prop msg ''id'') = None \<and>
               (\<forall>j. j \<noteq> k \<longrightarrow> calls s' ! j = calls s ! j) \<and>
               (\<forall>i. get_prop msg ''id'' \<noteq> Some (JNum i) \<longrightarrow> callbacks s' i = callbacks s i)"
    by blast
next
  assume "(\<not> truthy (get_prop msg ''id'') \<or> callbacks_get s (get_prop msg ''id'') = None) \<and>
          \<not> truthy (get_prop msg ''method'')"
  then show "message_listener JSON_parse code s raw w = Inr (s, [], w)"
    using listener_other [of JSON_parse raw msg s code w] assms(2,3) by simp
qed

theorem C5_reply_witness:
  "settled (calls (fst (run example_parse example_handlers (CDP_new example_ws, [])
      [Send ''Target.getTargets'' (JObj []) JNull 10000,
       Send ''Target.attachToTarget'' (JObj [(''targetId'', JStr ''T1'')]) JNull 10000,
       Message frame_error])) ! 1)
     = Some (Rejected (Error ''No target with given id'')) \<and>
   message_listener example_parse example_handlers
     (fst (run example_parse example_handlers (CDP_new example_ws, [])
        [Send ''Target.getTargets'' (JObj []) JNull 10000,
         Send ''Target.attachToTarget'' (JObj [(''targetId'', JStr ''T1'')]) JNull 10000]))
     frame_unsolicited []
     = Inr (fst (run example_parse example_handlers (CDP_new example_ws, [])
        [Send ''Target.getTargets'' (JObj []) JNull 10000,
         Send ''Target.attachToTarget'' (JObj [(''targetId'', JStr ''T1'')]) JNull 10000]), [], [])"
proof -
  let ?evs = "[Send ''Target.getTargets'' (JObj []) JNull 10000,
         Send ''Target.attachToTarget'' (JObj [(''targetId'', JStr ''T1'')]) JNull 10000]"
  let ?s = "fst (run example_parse example_handlers (CDP_new example_ws, []) ?evs)"
  let ?e = "JObj [(''id'', JNum 2),
                  (''error'', JObj [(''message'', JStr ''No target with given id'')])]"
  let ?r = "JObj [(''id'', JNum 7), (''result'', JObj [])]"
  have pe: "example_parse frame_error = Inr ?e"
    by (simp add: example_parse_def example_frames)
  have pr: "example_parse frame_unsolicited = Inr ?r"
    by (simp add: example_parse_def example_frames)
  have cb: "callbacks ?s 2 = Some 1" "callbacks ?s 7 = None" "settled (calls ?s ! 1) = None"
    by (simp_all add: run_def client_defs)
  have a: "truthy (get_prop ?e ''id'') \<and> callbacks_get ?s (get_prop ?e ''id'') = Some 1 \<and>
          settled (calls ?s ! 1) = None"
    using cb by simp
  have b: "(\<not> truthy (get_prop ?r ''id'') \<or> callbacks_get ?s (get_prop ?r ''id'') = None) \<and>
          \<not> truthy (get_prop ?r ''method'')"
    using cb by simp
  from C5_reply_settles_its_call [where JSON_parse = example_parse and code = example_handlers
      and ?w0.0 = example_ws and u = "[]" and evs = ?evs and s = ?s and raw = frame_error
      and msg = ?e and k = 1 and w = "[]", OF refl pe] a
  obtain s' where s': "message_listener example_parse example_handlers ?s frame_error []
        = Inr (s', [], [])"
      "settled (calls s' ! 1) = Some (Rejected (Error ''No target with given id''))"
    by auto
  have 1: "fst (run example_parse example_handlers (CDP_new example_ws, [])
      (?evs @ [Message frame_error])) = s'"
    using s'(1) by (simp add: run_def)
  from C5_reply_settles_its_call [where JSON_parse = example_parse and code = example_handlers
      and ?w0.0 = example_ws and u = "[]" and evs = ?evs and s = ?s and raw = frame_unsolicited
      and msg = ?r and k = 1 and w = "[]", OF refl pr] b
  have 2: "message_listener example_parse example_handlers ?s frame_unsolicited []
        = Inr (?s, [], [])"
    by simp
  from 1 s'(2) 2 show ?thesis by simp
qed



text \<open>
  Claim C7. When an event arrives for a method with registered handlers, every one of
  them is called, in the order of registration, whatever any of them throws; the
  listener returns normally and leaves the client as it was, so that the frames after it
  are dispatched as if no handler had thrown.
\<close>

theorem C7_handler_errors_are_swallowed:
  assumes "JSON_parse raw = Inr msg" and "msg \<noteq> JNull"
    and "\<not> truthy (get_prop msg ''id'') \<or> callbacks_get s (get_prop msg ''id'') = None"
    and "get_prop msg ''method'' = Some (JStr m)" and "m \<noteq> []"
    and "eventHandlers s m = Some hs"
  shows "message_listener JSON_parse code s raw w =
           Inr (s, hs, foldl (\<lambda>w h. snd (code h (or_else (get_prop msg ''params'') (JObj []))
                                      (or_else (get_prop msg ''sessionId'') JNull) w)) w hs) \<and>
         fst (run JSON_parse code (s, w) (Message raw # evs)) =
           fst (run JSON_parse code (s, foldl (\<lambda>w h. snd (code h (or_else (get_prop msg ''params'') (JObj []))
                                      (or_else (get_prop msg ''sessionId'') JNull) w)) w hs) evs)"
proof -
  let ?p = "or_else (get_prop msg ''params'') (JObj [])"
  let ?sid = "or_else (get_prop msg ''sessionId'') JNull"
  have e: "emit code s (JStr m) ?p ?sid w = (hs, foldl (\<lambda>w h. snd (code h ?p ?sid w)) w hs)"
    using assms(6) by (cases hs) (simp_all add: emit_def emit_loop_eq)
  have 1: "message_listener JSON_parse code s raw w =
           Inr (s, hs, foldl (\<lambda>w h. snd (code h ?p ?sid w)) w hs)"
    using listener_other [of JSON_parse raw msg s code w] assms(1-5) e by simp
  then show ?thesis by (simp add: run_def)
qed

theorem C7_handler_errors_witness:
  "message_listener example_parse example_handlers
     (on (on (CDP_new example_ws) ''Page.loadEventFired'' 1) ''Page.loadEventFired'' 2)
     frame_event []
   = Inr (on (on (CDP_new example_ws) ''Page.loadEventFired'' 1) ''Page.loadEventFired'' 2,
          [1, 2], [1, 2])"
proof -
  let ?s = "on (on (CDP_new example_ws) ''Page.loadEventFired'' 1) ''Page.loadEventFired'' 2"
  let ?msg = "JObj [(''method'', JStr ''Page.loadEventFired''),
                      (''params'', JObj [(''timestamp'', JNum 1)])]"
  have 1: "example_parse frame_event = Inr ?msg"
    by (simp add: example_parse_def example_frames)
  have 2: "?msg \<noteq> JNull" by simp
  have 3: "\<not> truthy (get_prop ?msg ''id'') \<or> callbacks_get ?s (get_prop ?msg ''id'') = None"
    by simp
  have 4: "get_prop ?msg ''method'' = Some (JStr ''Page.loadEventFired'')" by simp
  have 5: "''Page.loadEventFired'' \<noteq> []" by simp
  have 6: "eventHandlers ?s ''Page.loadEventFired'' = Some [1, 2]"
    by (simp add: on_def CDP_new_def)
  from C7_handler_errors_are_swallowed [where JSON_parse = example_parse and raw = frame_event
      and msg = ?msg and s = ?s and m = "''Page.loadEventFired''" and hs = "[1, 2]"
      and code = example_handlers and w = "[]" and evs = "[]", OF 1 2 3 4 5 6]
  show ?thesis by (simp add: example_handlers_def)
qed

text \<open>
  Claim C8. When the reply to \<^verbatim>\<open>evaluate\<close> carries \<^verbatim>\<open>exceptionDetails\<close>, the call
  throws \<^verbatim>\<open>new Error\<close> of the exception's \<^verbatim>\<open>description\<close>, or of the \<^verbatim>\<open>text\<close> of the
  details when there is no description, so that the message of the error is that text;
  otherwise it returns the \<^verbatim>\<open>value\<close> of the reply's \<^verbatim>\<open>result\<close>. The reply's result is
  an object, as the wire format has it.
\<close>

theorem C8_evaluate_throws_exception_text:
  assumes "result \<noteq> JNull"
  shows "(\<forall>details. get_prop result ''exceptionDetails'' = Some details \<and> truthy (Some details) \<longrightarrow>
            evaluate_result (Resolved (Some result)) =
              Inl (Error_new (js_or (opt_get (get_prop details ''exception'') ''description'')
                                    (get_prop details ''text'')))) \<and>
         (\<forall>details d. get_prop result ''exceptionDetails'' = Some details \<and> truthy (Some details) \<and>
            opt_get (get_prop details ''exception'') ''description'' = Some (JStr d) \<and> d \<noteq> [] \<longrightarrow>
            evaluate_result (Resolved (Some result)) = Inl (Error d)) \<and>
         (\<forall>details t. get_prop result ''exceptionDetails'' = Some details \<and> truthy (Some details) \<and>
            \<not> truthy (opt_get (get_prop details ''exception'') ''description'') \<and>
            get_prop details ''text'' = Some (JStr t) \<longrightarrow>
            evaluate_result (Resolved (Some result)) = Inl (Error t)) \<and>
         (\<not> truthy (get_prop result ''exceptionDetails'') \<longrightarrow>
            evaluate_result (Resolved (Some result)) =
              Inr (opt_get (get_prop result ''result'') ''value''))"
proof -
  have 1: "evaluate_result (Resolved (Some result)) =
     (case get_prop result ''exceptionDetails'' of
        None \<Rightarrow> Inr (opt_get (get_prop result ''result'') ''value'')
      | Some details \<Rightarrow>
          if truthy (Some details)
          then Inl (Error_new (js_or (opt_get (get_prop details ''exception'') ''description'')
                                     (get_prop details ''text'')))
          else Inr (opt_get (get_prop result ''result'') ''value''))"
    using assms by (cases result) (auto split: option.splits)
  show ?thesis
    unfolding 1 by (auto simp: js_or_def split: option.splits)
qed

theorem C8_evaluate_witness:
  "evaluate_result (Resolved (Some (JObj [(''exceptionDetails'',
       JObj [(''text'', JStr ''Uncaught ReferenceError: x is not defined'')])])))
     = Inl (Error ''Uncaught ReferenceError: x is not defined'') \<and>
   evaluate_result (Resolved (Some (JObj [(''result'', JObj [(''type'', JStr ''number''),
       (''value'', JNum 42)])])))
     = Inr (Some (JNum 42))"
proof -
  let ?d = "JObj [(''text'', JStr ''Uncaught ReferenceError: x is not defined'')]"
  let ?x = "JObj [(''exceptionDetails'', ?d)]"
  let ?y = "JObj [(''result'', JObj [(''type'', JStr ''number''), (''value'', JNum 42)])]"
  have x: "?x \<noteq> JNull" and y: "?y \<noteq> JNull" by simp_all
  have 1: "get_prop ?x ''exceptionDetails'' = Some ?d \<and> truthy (Some ?d) \<and>
      \<not> truthy (opt_get (get_prop ?d ''exception'') ''description'') \<and>
      get_prop ?d ''text'' = Some (JStr ''Uncaught ReferenceError: x is not defined'')"
    by simp
  have 2: "\<not> truthy (get_prop ?y ''exceptionDetails'')" by simp
  from C8_evaluate_throws_exception_text [OF x] 1
  have a: "evaluate_result (Resolved (Some ?x))
      = Inl (Error ''Uncaught ReferenceError: x is not defined'')"
    by blast
  from C8_evaluate_throws_exception_text [OF y] 2
  have b: "evaluate_result (Resolved (Some ?y))
      = Inr (opt_get (get_prop ?y ''result'') ''value'')"
    by blast
  from a b show ?thesis by simp
qed

text \<open>
  Claim C9. Every error message that \<^verbatim>\<open>connect\<close> hands to its caller has its
  authorization headers redacted. \<^verbatim>\<open>redactSecrets\<close> replaces only the first word behind
  \<^verbatim>\<open>authorization:\<close> (its pattern ends in \<^verbatim>\<open>\S+\<close>): of
  \<^verbatim>\<open>Authorization: Bearer s3cr3t\<close> the scheme is replaced and the credential stays.
\<close>

theorem C9_bearer_credential_survives:
  "redactSecrets ''Authorization: Bearer s3cr3t'' = ''Authorization: *** s3cr3t''"
proof -
  have 1: "CHR ''='' \<notin> set ''Authorization: Bearer s3cr3t''" by simp
  have "replace_all re_authorization '' ***'' ''Authorization: Bearer s3cr3t''
      = ''Authorization: *** s3cr3t''"
    by (simp add: re_authorization_def upper_def is_space_def Let_def)
  then show ?thesis
    unfolding redactSecrets_def
    by (simp only: replace_all_token_id [OF 1] replace_all_access_token_id [OF 1])
       simp
qed

text \<open>
  Claim C10. When both \<^verbatim>\<open>LIGHTPANDA_CDP_URL\<close> and \<^verbatim>\<open>CDP_WS_URL\<close> are unset or
  empty, \<^verbatim>\<open>connect\<close> does not fail with the configuration error: its first request
  is the fetch of \<^verbatim>\<open>http://localhost:9222/json/version\<close> under the given timeout; when
  that fetch (or the reading of its body) is aborted, \<^verbatim>\<open>connect\<close> fails with the
  timeout message that says to set \<^verbatim>\<open>LIGHTPANDA_CDP_URL\<close>; and when it returns a
  document, \<^verbatim>\<open>connect\<close> opens a socket to its \<^verbatim>\<open>webSocketDebuggerUrl\<close> and returns a
  client on it.
\<close>

theorem C10_fallback_to_localhost:
  assumes "LIGHTPANDA_CDP_URL e = None \<or> LIGHTPANDA_CDP_URL e = Some []"
    and "CDP_WS_URL e = None \<or> CDP_WS_URL e = Some []"
  shows "take 1 (snd (connect e t)) = [Http_fetch ''http://localhost:9222/json/version'' t] \<and>
     fst (connect e t) \<noteq> Inl (Error invalid_endpoint_message) \<and>
     (\<forall>ep d. fst (connect e t) \<noteq> Inl (Error (failed_to_connect_message ep d))) \<and>
     (\<forall>m. fetch e 0 ''http://localhost:9222/json/version'' t = Fetch_throws ''AbortError'' m \<longrightarrow>
        fst (connect e t) = Inl (Error connection_timeout_message)) \<and>
     (\<forall>status m. fetch e 0 ''http://localhost:9222/json/version'' t
          = Response status (Inl (''AbortError'', m)) \<longrightarrow>
        fst (connect e t) = Inl (Error connection_timeout_message)) \<and>
     (\<forall>status j. fetch e 0 ''http://localhost:9222/json/version'' t = Response status (Inr j) \<and>
          j \<noteq> JNull \<and> WebSocket_impl e \<longrightarrow>
        snd (connect e t) = [Http_fetch ''http://localhost:9222/json/version'' t,
                             Ws_connect (get_prop j ''webSocketDebuggerUrl'') t] \<and>
        (WebSocket_connect e 1 (get_prop j ''webSocketDebuggerUrl'') t = Ws_opens \<longrightarrow>
           fst (connect e t) =
             Inr (CDP_new (ws_open (get_prop j ''webSocketDebuggerUrl'')
                             (WebSocket_send_throws e)))))"
proof -
  have c: "connect e t = connect_fallback e t"
    using getCdpWsUrlFromEnv_unset [OF assms] by (simp add: connect_def)
  have 1: "take 1 (snd (connect_fallback e t))
      = [Http_fetch ''http://localhost:9222/json/version'' t]"
    by (auto simp: connect_fallback_def connectWebSocket_def
        split: fetch_outcome.splits sum.splits json.splits prod.splits ws_outcome.splits)
  have 2: "fst (connect_fallback e t) \<noteq> Inl (Error invalid_endpoint_message)"
    using connect_fallback_errors [of e t "Error invalid_endpoint_message"]
      config_messages_differ(1-4)
    by auto
  have 3: "\<forall>ep d. fst (connect_fallback e t) \<noteq> Inl (Error (failed_to_connect_message ep d))"
  proof (intro allI notI)
    fix ep d assume "fst (connect_fallback e t) = Inl (Error (failed_to_connect_message ep d))"
    from connect_fallback_errors [OF this] config_messages_differ(5-8) [of ep d]
    show False by auto
  qed
  have 4: "\<forall>m. fetch e 0 ''http://localhost:9222/json/version'' t = Fetch_throws ''AbortError'' m \<longrightarrow>
        fst (connect_fallback e t) = Inl (Error connection_timeout_message)"
    by (simp add: connect_fallback_def)
  have 5: "\<forall>status m. fetch e 0 ''http://localhost:9222/json/version'' t
          = Response status (Inl (''AbortError'', m)) \<longrightarrow>
        fst (connect_fallback e t) = Inl (Error connection_timeout_message)"
    by (simp add: connect_fallback_def)
  have 6: "\<forall>status j. fetch e 0 ''http://localhost:9222/json/version'' t = Response status (Inr j) \<and>
          j \<noteq> JNull \<and> WebSocket_impl e \<longrightarrow>
        snd (connect_fallback e t) = [Http_fetch ''http://localhost:9222/json/version'' t,
                             Ws_connect (get_prop j ''webSocketDebuggerUrl'') t] \<and>
        (WebSocket_connect e 1 (get_prop j ''webSocketDebuggerUrl'') t = Ws_opens \<longrightarrow>
           fst (connect_fallback e t) =
             Inr (CDP_new (ws_open (get_prop j ''webSocketDebuggerUrl'')
                             (WebSocket_send_throws e))))"
  proof (intro allI impI)
    fix status j
    assume h: "fetch e 0 ''http://localhost:9222/json/version'' t = Response status (Inr j) \<and>
          j \<noteq> JNull \<and> WebSocket_impl e"
    let ?r = "connectWebSocket e (get_prop j ''webSocketDebuggerUrl'') t
                  [Http_fetch ''http://localhost:9222/json/version'' t]"
    have f: "connect_fallback e t =
          (case ?r of
             (Inr client, tr) \<Rightarrow> (Inr client, tr)
           | (Inl err, tr) \<Rightarrow>
               if name err = ''AbortError'' then (Inl (Error connection_timeout_message), tr)
               else (Inl err, tr))"
      using h by (cases j) (simp_all add: connect_fallback_def)
    show "snd (connect_fallback e t) = [Http_fetch ''http://localhost:9222/json/version'' t,
                             Ws_connect (get_prop j ''webSocketDebuggerUrl'') t] \<and>
        (WebSocket_connect e 1 (get_prop j ''webSocketDebuggerUrl'') t = Ws_opens \<longrightarrow>
           fst (connect_fallback e t) =
             Inr (CDP_new (ws_open (get_prop j ''webSocketDebuggerUrl'')
                             (WebSocket_send_throws e))))"
      unfolding f using h
      by (auto simp: connectWebSocket_def split: ws_outcome.splits)
  qed
  from 1 2 3 4 5 6 show ?thesis unfolding c by blast
qed

theorem C10_fallback_witness:
  "connect example_env 5000 =
     (Inr (CDP_new (ws_open (Some (JStr ''ws://localhost:9222/devtools/browser/b1'')) None)),
      [Http_fetch ''http://localhost:9222/json/version'' 5000,
       Ws_connect (Some (JStr ''ws://localhost:9222/devtools/browser/b1'')) 5000]) \<and>
   fst (connect abort_env 5000) = Inl (Error connection_timeout_message)"
proof -
  let ?j = "JObj [(''webSocketDebuggerUrl'', JStr ''ws://localhost:9222/devtools/browser/b1'')]"
  have e: "LIGHTPANDA_CDP_URL example_env = None \<or> LIGHTPANDA_CDP_URL example_env = Some []"
    "CDP_WS_URL example_env = None \<or> CDP_WS_URL example_env = Some []"
    by (simp_all add: example_env_def)
  have a: "LIGHTPANDA_CDP_URL abort_env = None \<or> LIGHTPANDA_CDP_URL abort_env = Some []"
    "CDP_WS_URL abort_env = None \<or> CDP_WS_URL abort_env = Some []"
    by (simp_all add: abort_env_def example_env_def)
  have f: "fetch example_env 0 ''http://localhost:9222/json/version'' 5000 = Response 200 (Inr ?j) \<and>
      ?j \<noteq> JNull \<and> WebSocket_impl example_env"
    "WebSocket_connect example_env 1 (get_prop ?j ''webSocketDebuggerUrl'') 5000 = Ws_opens"
    "WebSocket_send_throws example_env = None"
    by (simp_all add: example_env_def)
  have g: "fetch abort_env 0 ''http://localhost:9222/json/version'' 5000
      = Fetch_throws ''AbortError'' ''This operation was aborted''"
    by (simp add: abort_env_def example_env_def)
  from C10_fallback_to_localhost [OF e, of 5000] f
  have 1: "snd (connect example_env 5000) = [Http_fetch ''http://localhost:9222/json/version'' 5000,
                             Ws_connect (get_prop ?j ''webSocketDebuggerUrl'') 5000]"
    and 2: "fst (connect example_env 5000) =
             Inr (CDP_new (ws_open (get_prop ?j ''webSocketDebuggerUrl'') None))"
    by metis+
  from C10_fallback_to_localhost [OF a, of 5000] g
  have 3: "fst (connect abort_env 5000) = Inl (Error connection_timeout_message)"
    by blast
  from 1 2 3 show ?thesis by (simp add: prod_eq_iff)
qed

end
